theory Spec2Isabelle
  imports Complex_Main "HOL-Library.Log_Nat"
begin

section \<open>Numbers, rectangles and errors\<close>

text \<open>
  The scanner (class \<open>Html5Qrcode\<close> of \<open>html5-qrcode.js\<close>) computes with JavaScript
  numbers. A number is modelled as the rational it denotes. In the camera path the
  quantities read from the page (\<open>clientWidth\<close>, \<open>clientHeight\<close>, \<open>config.qrbox\<close>) are
  combined by differences, sums and halves only, and the operations are the exact ones
  of the rationals; so are the ratios and the delay of \<open>foreverScan\<close>. In the
  still-image path, where sizes are scaled, every operation is rounded as JavaScript
  rounds it. JavaScript answers a division by zero with an infinity or \<open>NaN\<close>, HOL with
  \<open>0\<close>; where a statement below depends on the value of a quotient, its hypotheses keep
  the divisor positive.
\<close>

type_synonym number = rat

text \<open>The object literal \<open>{x, y, width, height}\<close>, used for the viewfinder region
  (\<open>_qrRegion\<close>) and for the layout \<open>computeCanvasDrawConfig\<close> returns.\<close>

record rect =
  rect_x :: number
  rect_y :: number
  rect_width :: number
  rect_height :: number

definition DEFAULT_WIDTH :: number where "DEFAULT_WIDTH = 300"
definition SCAN_DEFAULT_FPS :: number where "SCAN_DEFAULT_FPS = 2"
definition MIN_QR_BOX_SIZE :: number where "MIN_QR_BOX_SIZE = 50"
definition SHADED_LEFT :: nat where "SHADED_LEFT = 1"
definition SHADED_RIGHT :: nat where "SHADED_RIGHT = 2"
definition SHADED_TOP :: nat where "SHADED_TOP = 3"
definition SHADED_BOTTOM :: nat where "SHADED_BOTTOM = 4"

section \<open>JavaScript arithmetic in the still-image path\<close>

text \<open>
  \<open>computeCanvasDrawConfig\<close> scales sizes by quotients, and its results are not whole
  numbers: there the rounding of JavaScript's arithmetic shows. A JavaScript number is
  an IEEE 754 binary64 value, and each operation returns the exact result rounded to
  the nearest such value, ties to the even significand. A finite binary64 value is
  modelled as the rational it denotes; infinities and \<open>NaN\<close> are not modelled: on
  positive finite sizes no operation of \<open>computeCanvasDrawConfig\<close> divides by zero or
  returns more than the larger of its operands.
\<close>

text \<open>The binary exponent of a positive rational \<open>x\<close>: the \<open>e\<close> with
  \<open>2\<^sup>e \<le> x < 2\<^sup>e\<^sup>+\<^sup>1\<close>, found from the bit lengths of numerator and denominator.\<close>

definition exponentOf :: "rat \<Rightarrow> int" where
  "exponentOf x =
     (let (a, b) = quotient_of x;
          d = bitlen a - bitlen b
      in if 2 powi d \<le> x then d else d - 1)"

text \<open>The distance between neighbouring binary64 values at \<open>x\<close>: 53 significant bits,
  and below the smallest normal exponent, \<open>-1022\<close>, the fixed spacing of the subnormal
  values.\<close>

definition ulpAt :: "rat \<Rightarrow> rat" where
  "ulpAt x = 2 powi (max (exponentOf \<bar>x\<bar>) (- 1022) - 52)"

definition roundTiesToEven :: "rat \<Rightarrow> int" where
  "roundTiesToEven m =
     (let f = \<lfloor>m\<rfloor>; r = m - of_int f
      in if r < 1 / 2 then f
         else if r > 1 / 2 then f + 1
         else if even f then f else f + 1)"

definition roundDouble :: "rat \<Rightarrow> rat" where
  "roundDouble x =
     (if x = 0 then 0 else of_int (roundTiesToEven (x / ulpAt x)) * ulpAt x)"

text \<open>The rationals a JavaScript number can hold.\<close>

definition isDouble :: "rat \<Rightarrow> bool" where
  "isDouble x = (roundDouble x = x \<and> \<bar>x\<bar> < 2 ^ 1024)"

text \<open>JavaScript's \<open>/\<close>, \<open>*\<close> and \<open>-\<close> on numbers.\<close>

definition jsDivide :: "number \<Rightarrow> number \<Rightarrow> number" where
  "jsDivide a b = roundDouble (a / b)"

definition jsTimes :: "number \<Rightarrow> number \<Rightarrow> number" where
  "jsTimes a b = roundDouble (a * b)"

definition jsMinus :: "number \<Rightarrow> number \<Rightarrow> number" where
  "jsMinus a b = roundDouble (a - b)"

text \<open>The relative error of one rounding of a normal value is at most \<open>unitRoundoff\<close>;
  \<open>minNormal\<close> is the smallest positive normal value. A size between 1 and \<open>maxSize\<close>
  keeps every intermediate result of \<open>computeCanvasDrawConfig\<close> normal.\<close>

definition unitRoundoff :: rat where
  "unitRoundoff = 1 / 2 ^ 53"

definition minNormal :: rat where
  "minNormal = 2 powi (- 1022)"

definition maxSize :: rat where
  "maxSize = 2 powi 1000"

definition isSize :: "number \<Rightarrow> bool" where
  "isSize x = (isDouble x \<and> 1 \<le> x \<and> x \<le> maxSize)"

section \<open>The still-image path: \<open>computeCanvasDrawConfig\<close>\<close>

text \<open>\<open>computeCanvasDrawConfig\<close> is a local function of \<open>scanFile\<close>, called when the
  image has loaded with the image's size and the container's client size. Its base case
  (no downsampling needed): the image keeps its size and is centred in the container.\<close>

definition noDownsampling :: "number \<Rightarrow> number \<Rightarrow> number \<Rightarrow> number \<Rightarrow> rect" where
  "noDownsampling imageWidth imageHeight containerWidth containerHeight =
     (let xoffset = jsDivide (jsMinus containerWidth imageWidth) 2;
          yoffset = jsDivide (jsMinus containerHeight imageHeight) 2
      in \<lparr>rect_x = xoffset, rect_y = yoffset,
          rect_width = imageWidth, rect_height = imageHeight\<rparr>)"

text \<open>The else branch holds two \<open>if\<close> statements that assign to \<open>imageWidth\<close> and
  \<open>imageHeight\<close>. The first cuts the width to the container's and scales the height:
  \<open>(containerWidth / imageWidth) * imageHeight\<close>, a division and a multiplication,
  each rounded.\<close>

definition fitWidth :: "number \<Rightarrow> number \<Rightarrow> number \<Rightarrow> number \<times> number" where
  "fitWidth imageWidth imageHeight containerWidth =
     (if imageWidth > containerWidth
      then (containerWidth, jsTimes (jsDivide containerWidth imageWidth) imageHeight)
      else (imageWidth, imageHeight))"

text \<open>The second cuts the height to the container's and scales the width; it reads the
  values the first statement left.\<close>

definition fitHeight :: "number \<Rightarrow> number \<Rightarrow> number \<Rightarrow> number \<times> number" where
  "fitHeight imageWidth imageHeight containerHeight =
     (if imageHeight > containerHeight
      then (jsTimes (jsDivide containerHeight imageHeight) imageWidth, containerHeight)
      else (imageWidth, imageHeight))"

definition downsample :: "number \<Rightarrow> number \<Rightarrow> number \<Rightarrow> number \<Rightarrow> number \<times> number" where
  "downsample imageWidth imageHeight containerWidth containerHeight =
     (let (imageWidth1, imageHeight1) = fitWidth imageWidth imageHeight containerWidth
      in fitHeight imageWidth1 imageHeight1 containerHeight)"

text \<open>The function itself. It calls itself on the downsampled size without any bound,
  so it is a partial function: \<open>None\<close> is the call that never returns.\<close>

partial_function (option) computeCanvasDrawConfig ::
  "number \<Rightarrow> number \<Rightarrow> number \<Rightarrow> number \<Rightarrow> rect option" where
  "computeCanvasDrawConfig imageWidth imageHeight containerWidth containerHeight =
     (if imageWidth \<le> containerWidth \<and> imageHeight \<le> containerHeight
      then Some (noDownsampling imageWidth imageHeight containerWidth containerHeight)
      else computeCanvasDrawConfig
             (fst (downsample imageWidth imageHeight containerWidth containerHeight))
             (snd (downsample imageWidth imageHeight containerWidth containerHeight))
             containerWidth containerHeight)"

text \<open>The same function with a budget of recursive calls: \<open>computeCanvasDrawConfig_calls n\<close>
  returns what the function returns when it makes at most \<open>n\<close> recursive calls, and
  \<open>None\<close> when it would make more.\<close>

fun computeCanvasDrawConfig_calls ::
  "nat \<Rightarrow> number \<Rightarrow> number \<Rightarrow> number \<Rightarrow> number \<Rightarrow> rect option" where
  "computeCanvasDrawConfig_calls 0 imageWidth imageHeight containerWidth containerHeight =
     (if imageWidth \<le> containerWidth \<and> imageHeight \<le> containerHeight
      then Some (noDownsampling imageWidth imageHeight containerWidth containerHeight)
      else None)"
| "computeCanvasDrawConfig_calls (Suc n) imageWidth imageHeight containerWidth containerHeight =
     (if imageWidth \<le> containerWidth \<and> imageHeight \<le> containerHeight
      then Some (noDownsampling imageWidth imageHeight containerWidth containerHeight)
      else computeCanvasDrawConfig_calls n
             (fst (downsample imageWidth imageHeight containerWidth containerHeight))
             (snd (downsample imageWidth imageHeight containerWidth containerHeight))
             containerWidth containerHeight)"

section \<open>Viewfinder geometry\<close>

text \<open>What the scanner throws: each constructor is one \<open>throw\<close> of the source, or the
  \<open>TypeError\<close>, \<open>ReferenceError\<close> and \<open>NotFoundError\<close> the platform raises for a property
  read on \<open>null\<close>/\<open>undefined\<close>, for an undeclared global and for \<open>removeChild\<close> on a
  node that is not a child.\<close>

datatype error =
    CameraIdRequired
  | SuccessCallbackRequired
  | CannotClearWhileScanning
  | QrboxBelowMinimum
  | QrboxExceedsElementWidth
  | QrboxExceedsWidthOrHeight
  | UnsupportedShadingPosition
  | ImageFileMandatory
  | CloseOngoingScan
  | TypeError
  | ReferenceError
  | NotFoundError

datatype 'a completion = Throws error | Returns 'a

definition getShadedRegionBounds :: "number \<Rightarrow> number \<Rightarrow> number \<Rightarrow> rect completion" where
  "getShadedRegionBounds width height qrboxSize =
     (if qrboxSize > width \<or> qrboxSize > height then Throws QrboxExceedsWidthOrHeight
      else Returns \<lparr>rect_x = (width - qrboxSize) / 2, rect_y = (height - qrboxSize) / 2,
                    rect_width = qrboxSize, rect_height = qrboxSize\<rparr>)"

text \<open>The style of a shading \<open>div\<close> as \<open>_createShadedElement\<close> leaves it: absolutely
  positioned, with \<open>top\<close>, one of \<open>left\<close> and \<open>right\<close>, \<open>width\<close> and \<open>height\<close>, all in
  pixels. \<open>shaded_position\<close> is the suffix of its id.\<close>

record shadedElement =
  shaded_position :: nat
  shaded_top :: number
  shaded_left :: "number option"
  shaded_right :: "number option"
  shaded_width :: number
  shaded_height :: number

definition createShadedElement :: "number \<Rightarrow> rect \<Rightarrow> nat \<Rightarrow> shadedElement completion" where
  "createShadedElement height qrRegion shadingPosition =
     (if shadingPosition = SHADED_LEFT then
        Returns \<lparr>shaded_position = shadingPosition, shaded_top = 0, shaded_left = Some 0,
          shaded_right = None, shaded_width = rect_x qrRegion, shaded_height = height\<rparr>
      else if shadingPosition = SHADED_RIGHT then
        Returns \<lparr>shaded_position = shadingPosition, shaded_top = 0, shaded_left = None,
          shaded_right = Some 0, shaded_width = rect_x qrRegion, shaded_height = height\<rparr>
      else if shadingPosition = SHADED_TOP then
        Returns \<lparr>shaded_position = shadingPosition, shaded_top = 0,
          shaded_left = Some (rect_x qrRegion), shaded_right = None,
          shaded_width = rect_width qrRegion, shaded_height = rect_y qrRegion\<rparr>
      else if shadingPosition = SHADED_BOTTOM then
        (let top = rect_y qrRegion + rect_height qrRegion
         in Returns \<lparr>shaded_position = shadingPosition, shaded_top = top,
              shaded_left = Some (rect_x qrRegion), shaded_right = None,
              shaded_width = rect_width qrRegion, shaded_height = rect_y qrRegion\<rparr>)
      else Throws UnsupportedShadingPosition)"

text \<open>\<open>_possiblyInsertShadingElement\<close>: the elements it appends to the container, in
  order, and whether it threw on the way (the elements appended before stay).\<close>

definition possiblyInsertShadingElement ::
  "number \<Rightarrow> rect \<Rightarrow> unit completion \<times> shadedElement list" where
  "possiblyInsertShadingElement height qrRegion =
     (if rect_x qrRegion = 0 \<and> rect_y qrRegion = 0 then (Returns (), [])
      else
        (case createShadedElement height qrRegion SHADED_LEFT of
           Throws e \<Rightarrow> (Throws e, [])
         | Returns l \<Rightarrow>
        (case createShadedElement height qrRegion SHADED_RIGHT of
           Throws e \<Rightarrow> (Throws e, [l])
         | Returns r \<Rightarrow>
        (case createShadedElement height qrRegion SHADED_TOP of
           Throws e \<Rightarrow> (Throws e, [l, r])
         | Returns t \<Rightarrow>
        (case createShadedElement height qrRegion SHADED_BOTTOM of
           Throws e \<Rightarrow> (Throws e, [l, r, t])
         | Returns b \<Rightarrow> (Returns (), [l, r, t, b]))))))"



section \<open>The scanner and the page\<close>

record canvas =
  canvas_id :: string
  canvas_style_width :: number
  canvas_style_height :: number
  canvas_display :: string
  canvas_width :: number
  canvas_height :: number

record video =
  video_style_width :: number
  video_muted :: bool
  video_playsInline :: bool

datatype node = VideoNode video | CanvasNode canvas | ShadedNode shadedElement

text \<open>A media stream, as far as the scanner looks at it: the number of its video
  tracks.\<close>

record mediaStream =
  stream_id :: nat
  stream_videoTracks :: nat

text \<open>The arguments of one \<open>drawImage\<close> call, named as the source's comments name them.\<close>

record drawImageArgs =
  sx :: number
  sy :: number
  sWidth :: number
  sHeight :: number
  dx :: number
  dy :: number
  dWidth :: number
  dHeight :: number

text \<open>The calls the scanner makes on the platform, in the order it makes them.\<close>

datatype effect =
    GetUserMedia string
  | LegacyGetUserMedia string
  | Play
  | DrawImage drawImageArgs
  | Decode
  | ErrorCallback
  | SetTimeout nat number
  | ClearTimeout "nat option"
  | StopTrack
  | ConsoleWarn
  | RevokeObjectURL nat
  | LoadImage nat

text \<open>The fields of \<open>this\<close> (without their underscore), and what the scanner reads and
  writes on the page: the container element (whether \<open>getElementById\<close> finds it, its
  client size, its children), \<open>qrcode.callback\<close>, the pending timeouts (each one runs
  \<open>foreverScan\<close>), and the log of platform calls.\<close>

record scanner =
  foreverScanTimeout :: "nat option"
  localMediaStream :: "mediaStream option"
  shouldScan :: bool
  isScanning :: bool
  videoElement :: "video option"
  qrRegion :: "rect option"
  context2d :: "canvas option"
  canvasElement :: "canvas option"
  lastScanImageFile :: "nat option"
  elementPresent :: bool
  element_clientWidth :: number
  element_clientHeight :: number
  element_children :: "node list"
  qrcode_callback :: "nat option"
  timers :: "nat list"
  nextTimer :: nat
  effects :: "effect list"

definition perform :: "effect \<Rightarrow> scanner \<Rightarrow> scanner" where
  "perform e s = s\<lparr>effects := effects s @ [e]\<rparr>"

definition setTimeout :: "number \<Rightarrow> scanner \<Rightarrow> nat \<times> scanner" where
  "setTimeout delay s =
     (nextTimer s,
      perform (SetTimeout (nextTimer s) delay)
        (s\<lparr>timers := timers s @ [nextTimer s], nextTimer := Suc (nextTimer s)\<rparr>))"

definition clearTimeout :: "nat option \<Rightarrow> scanner \<Rightarrow> scanner" where
  "clearTimeout t s =
     perform (ClearTimeout t)
       (case t of None \<Rightarrow> s | Some i \<Rightarrow> s\<lparr>timers := removeAll i (timers s)\<rparr>)"

definition getTimeoutFps :: "number \<Rightarrow> number" where
  "getTimeoutFps fps = 1000 / fps"

definition clearElement :: "scanner \<Rightarrow> unit completion \<times> scanner" where
  "clearElement s =
     (if isScanning s then (Throws CannotClearWhileScanning, s)
      else if \<not> elementPresent s then (Throws TypeError, s)
      else (Returns (), s\<lparr>element_children := []\<rparr>))"

text \<open>A new canvas has the platform's default pixel size, 300 by 150, until the caller
  sets \<open>context.canvas.width\<close> and \<open>height\<close>.\<close>

definition createCanvasElement :: "number \<Rightarrow> number \<Rightarrow> string option \<Rightarrow> canvas" where
  "createCanvasElement width height customId =
     \<lparr>canvas_id = (case customId of None \<Rightarrow> ''qr-canvas'' | Some i \<Rightarrow> i),
      canvas_style_width = width, canvas_style_height = height,
      canvas_display = ''none'', canvas_width = 300, canvas_height = 150\<rparr>"

definition createVideoElement :: "number \<Rightarrow> video" where
  "createVideoElement width =
     \<lparr>video_style_width = width, video_muted = True, video_playsInline = True\<rparr>"

section \<open>Starting a camera scan\<close>

text \<open>The \<open>configuration\<close> argument of \<open>start\<close>: \<open>fps\<close> and \<open>qrbox\<close>, each a number or
  undefined.\<close>

record config =
  config_fps :: "number option"
  config_qrbox :: "number option"

text \<open>A comparison with \<open>undefined\<close> is false in JavaScript, whichever way it goes.\<close>

definition jsLess :: "number option \<Rightarrow> number \<Rightarrow> bool" where
  "jsLess a b = (case a of None \<Rightarrow> False | Some v \<Rightarrow> v < b)"

definition jsLessEq :: "number option \<Rightarrow> number \<Rightarrow> bool" where
  "jsLessEq a b = (case a of None \<Rightarrow> False | Some v \<Rightarrow> v \<le> b)"

definition jsGreater :: "number option \<Rightarrow> number \<Rightarrow> bool" where
  "jsGreater a b = (case a of None \<Rightarrow> False | Some v \<Rightarrow> v > b)"

text \<open>What the local functions of \<open>start\<close> (\<open>setupUi\<close>, \<open>foreverScan\<close>,
  \<open>onMediaStreamReceived\<close>) capture from it: \<open>config.fps\<close>, \<open>config.qrbox\<close>,
  \<open>isShadedBoxEnabled\<close> and the element's \<open>width\<close>.\<close>

record startClosure =
  closure_fps :: number
  closure_qrbox :: "number option"
  closure_isShadedBoxEnabled :: bool
  closure_width :: number

text \<open>\<open>setupUi(width, height)\<close>. When \<open>_getShadedRegionBounds\<close> throws, nothing has been
  inserted yet; the canvas is appended before the shading elements.\<close>

definition setupUi ::
  "startClosure \<Rightarrow> number \<Rightarrow> number \<Rightarrow> scanner \<Rightarrow> unit completion \<times> scanner" where
  "setupUi c width height s =
     (let qrboxSize = closure_qrbox c;
          s1 = (if jsGreater qrboxSize height then perform ConsoleWarn s else s);
          shouldShadingBeApplied = (closure_isShadedBoxEnabled c \<and> jsLessEq qrboxSize height);
          defaultQrRegion =
            \<lparr>rect_x = 0, rect_y = 0, rect_width = width, rect_height = height\<rparr>
      in case (case qrboxSize of
                 Some q \<Rightarrow> (if shouldShadingBeApplied
                            then getShadedRegionBounds width height q
                            else Returns defaultQrRegion)
               | None \<Rightarrow> Returns defaultQrRegion) of
           Throws e \<Rightarrow> (Throws e, s1)
         | Returns region \<Rightarrow>
             (let cv = (createCanvasElement (rect_width region) (rect_height region) None)
                         \<lparr>canvas_width := rect_width region,
                          canvas_height := rect_height region\<rparr>;
                  s2 = s1\<lparr>element_children := element_children s1 @ [CanvasNode cv]\<rparr>;
                  inserted = (if shouldShadingBeApplied
                              then possiblyInsertShadingElement height region
                              else (Returns (), []));
                  s3 = s2\<lparr>element_children :=
                            element_children s2 @ map ShadedNode (snd inserted)\<rparr>
              in case fst inserted of
                   Throws e \<Rightarrow> (Throws e, s3)
                 | Returns u \<Rightarrow>
                     (Returns (),
                      s3\<lparr>qrRegion := Some region, context2d := Some cv,
                         canvasElement := Some cv\<rparr>)))"

text \<open>What \<open>foreverScan\<close> reads from the video element when it runs: the stream's native
  size and the size the page renders the video at.\<close>

record videoMetrics =
  video_videoWidth :: number
  video_videoHeight :: number
  video_clientWidth :: number
  video_clientHeight :: number

text \<open>The external decoder either returns or throws.\<close>

datatype decodeOutcome = DecodeReturns | DecodeThrows

text \<open>The block of \<open>foreverScan\<close> under \<open>if ($this._localMediaStream)\<close>: one frame is
  copied to the canvas and decoded.\<close>

definition scanFrame ::
  "videoMetrics \<Rightarrow> decodeOutcome \<Rightarrow> scanner \<Rightarrow> unit completion \<times> scanner" where
  "scanFrame m dec s =
     (case videoElement s of
        None \<Rightarrow> (Throws TypeError, s)
      | Some v \<Rightarrow>
     (let widthRatio = video_videoWidth m / video_clientWidth m;
          heightRatio = video_videoHeight m / video_clientHeight m
      in case qrRegion s of
        None \<Rightarrow> (Throws TypeError, s)
      | Some r \<Rightarrow>
     (let sWidthOffset = rect_width r * widthRatio;
          sHeightOffset = rect_height r * heightRatio
      in case context2d s of
        None \<Rightarrow> (Throws TypeError, s)
      | Some cx \<Rightarrow>
     (let s1 = perform (DrawImage
                 \<lparr>sx = rect_x r, sy = rect_y r,
                  sWidth = sWidthOffset, sHeight = sHeightOffset,
                  dx = 0, dy = 0,
                  dWidth = rect_width r, dHeight = rect_height r\<rparr>) s;
          s2 = perform Decode s1
      in (Returns (),
          (case dec of DecodeReturns \<Rightarrow> s2
                     | DecodeThrows \<Rightarrow> perform ErrorCallback s2))))))"

definition foreverScan ::
  "startClosure \<Rightarrow> videoMetrics \<Rightarrow> decodeOutcome \<Rightarrow> scanner \<Rightarrow> unit completion \<times> scanner" where
  "foreverScan c m dec s =
     (if \<not> shouldScan s then (Returns (), s)
      else
        (case (if localMediaStream s \<noteq> None then scanFrame m dec s else (Returns (), s)) of
           (Throws e, s1) \<Rightarrow> (Throws e, s1)
         | (Returns u, s1) \<Rightarrow>
             (let t = setTimeout (getTimeoutFps (closure_fps c)) s1
              in (Returns (), (snd t)\<lparr>foreverScanTimeout := Some (fst t)\<rparr>))))"

text \<open>The arguments of \<open>start\<close>: a callback argument is missing, not a function, or a
  function; the browser offers \<open>navigator.mediaDevices.getUserMedia\<close>, only the older
  \<open>navigator.getUserMedia\<close>, or neither.\<close>

datatype callbackArg = NoCallback | NotAFunction | Function nat

datatype cameraApi = MediaDevicesApi | LegacyApi | NoApi

text \<open>A Promise is pending, resolved with a value, or rejected: with a message, with
  the exception its executor or a callback threw, or with the event of a failed load.\<close>

datatype rejection = Message string | Exception error | ErrorEvent

datatype 'a promise = Pending | Resolved 'a | Rejected rejection

record startRequest =
  request_closure :: startClosure
  request_promise :: "unit promise"

text \<open>\<open>start\<close> up to the point where it returns its Promise. It throws before it asks for
  the camera, or returns with the camera requested (the Promise pending) or with the
  Promise rejected. The error callback has no part in what follows and is left out;
  so is \<open>element.style.position\<close>.\<close>

definition start ::
  "string \<Rightarrow> config option \<Rightarrow> callbackArg \<Rightarrow> cameraApi \<Rightarrow> scanner
   \<Rightarrow> startRequest completion \<times> scanner" where
  "start cameraId configuration qrCodeSuccessCallback api s =
     (if cameraId = [] then (Throws CameraIdRequired, s)
      else
        (case qrCodeSuccessCallback of
           Function cb \<Rightarrow>
             (case clearElement s of
                (Throws e, s1) \<Rightarrow> (Throws e, s1)
              | (Returns u, s1) \<Rightarrow>
                  (let cfg = (case configuration of
                                None \<Rightarrow> \<lparr>config_fps = None, config_qrbox = None\<rparr>
                              | Some c \<Rightarrow> c);
                       fps = (case config_fps cfg of
                                None \<Rightarrow> SCAN_DEFAULT_FPS
                              | Some f \<Rightarrow> if f = 0 then SCAN_DEFAULT_FPS else f);
                       isShadedBoxEnabled = (config_qrbox cfg \<noteq> None);
                       width = (if element_clientWidth s1 \<noteq> 0 then element_clientWidth s1
                                else DEFAULT_WIDTH);
                       s2 = s1\<lparr>shouldScan := True, qrcode_callback := Some cb\<rparr>;
                       c = \<lparr>closure_fps = fps, closure_qrbox = config_qrbox cfg,
                            closure_isShadedBoxEnabled = isShadedBoxEnabled,
                            closure_width = width\<rparr>
                   in if isShadedBoxEnabled \<and> jsLess (config_qrbox cfg) MIN_QR_BOX_SIZE
                      then (Throws QrboxBelowMinimum, s2)
                      else if isShadedBoxEnabled \<and> jsGreater (config_qrbox cfg) width
                      then (Throws QrboxExceedsElementWidth, s2)
                      else
                        (case api of
                           MediaDevicesApi \<Rightarrow>
                             (Returns \<lparr>request_closure = c, request_promise = Pending\<rparr>,
                              perform (GetUserMedia cameraId) s2)
                         | LegacyApi \<Rightarrow>
                             (Returns \<lparr>request_closure = c, request_promise = Pending\<rparr>,
                              perform (LegacyGetUserMedia cameraId) s2)
                         | NoApi \<Rightarrow>
                             (Returns \<lparr>request_closure = c, request_promise =
                                Rejected (Message ''Web camera streaming not supported by the browser.'')\<rparr>,
                              s2))))
         | _ \<Rightarrow> (Throws SuccessCallbackRequired, s)))"

section \<open>Stopping a camera scan\<close>

definition removeChild :: "node \<Rightarrow> node list \<Rightarrow> node list completion" where
  "removeChild n children =
     (if n \<in> set children then Returns (remove1 n children) else Throws NotFoundError)"

text \<open>\<open>removeQrRegion\<close>: while the container has a child of the shading class, the first
  one is removed; what stays are the children that are not shading elements.\<close>

fun removeQrRegion :: "node list \<Rightarrow> node list" where
  "removeQrRegion [] = []"
| "removeQrRegion (ShadedNode e # ns) = removeQrRegion ns"
| "removeQrRegion (n # ns) = n # removeQrRegion ns"

definition onAllTracksClosed :: "scanner \<Rightarrow> unit completion \<times> scanner" where
  "onAllTracksClosed s =
     (let s1 = s\<lparr>localMediaStream := None\<rparr>
      in case videoElement s1 of
           None \<Rightarrow> (Throws TypeError, s1)
         | Some v \<Rightarrow>
        (case removeChild (VideoNode v) (element_children s1) of
           Throws e \<Rightarrow> (Throws e, s1)
         | Returns children1 \<Rightarrow>
        (let s2 = s1\<lparr>element_children := children1\<rparr>
         in case canvasElement s2 of
              None \<Rightarrow> (Throws TypeError, s2)
            | Some cv \<Rightarrow>
           (case removeChild (CanvasNode cv) (element_children s2) of
              Throws e \<Rightarrow> (Throws e, s2)
            | Returns children2 \<Rightarrow>
                (Returns (),
                 s2\<lparr>element_children := removeQrRegion children2,
                    isScanning := False, qrRegion := None, context2d := None\<rparr>)))))"

text \<open>The \<open>forEach\<close> over the stream's video tracks: \<open>n\<close> tracks are left, \<open>tracksClosed\<close>
  have been stopped. The Promise of \<open>stop\<close> resolves when \<open>onAllTracksClosed\<close> returns,
  rejects when it throws, and stays pending when the stream has no video track.\<close>

fun stopTracks :: "nat \<Rightarrow> nat \<Rightarrow> nat \<Rightarrow> scanner \<Rightarrow> bool promise \<times> scanner" where
  "stopTracks 0 tracksClosed tracksToClose s = (Pending, s)"
| "stopTracks (Suc n) tracksClosed tracksToClose s =
     (let s1 = perform StopTrack s;
          tracksClosed1 = tracksClosed + 1
      in if tracksClosed1 \<ge> tracksToClose
         then (case onAllTracksClosed s1 of
                 (Throws e, s2) \<Rightarrow> (Rejected (Exception e), s2)
               | (Returns u, s2) \<Rightarrow>
                   (Resolved True, snd (stopTracks n tracksClosed1 tracksToClose s2)))
         else stopTracks n tracksClosed1 tracksToClose s1)"

definition stop :: "scanner \<Rightarrow> bool promise \<times> scanner" where
  "stop s =
     (let s1 = s\<lparr>shouldScan := False\<rparr>;
          s2 = clearTimeout (foreverScanTimeout s1) s1;
          s3 = s2\<lparr>qrcode_callback := None\<rparr>
      in case localMediaStream s3 of
           None \<Rightarrow> (Rejected (Exception TypeError), s3)
         | Some stream \<Rightarrow>
             stopTracks (stream_videoTracks stream) 0 (stream_videoTracks stream) s3)"

text \<open>A pending timeout fires: it leaves the list of pending timeouts and runs
  \<open>foreverScan\<close>. A timeout that is not pending does nothing.\<close>

definition timerFires ::
  "startClosure \<Rightarrow> nat \<Rightarrow> videoMetrics \<Rightarrow> decodeOutcome \<Rightarrow> scanner
   \<Rightarrow> unit completion \<times> scanner" where
  "timerFires c t m dec s =
     (if t \<in> set (timers s)
      then foreverScan c m dec (s\<lparr>timers := removeAll t (timers s)\<rparr>)
      else (Returns (), s))"

text \<open>Any number of timeouts firing one after the other; an exception in one ends that
  callback only.\<close>

fun timersFire ::
  "startClosure \<Rightarrow> (nat \<times> videoMetrics \<times> decodeOutcome) list \<Rightarrow> scanner \<Rightarrow> scanner" where
  "timersFire c [] s = s"
| "timersFire c ((t, m, dec) # fs) s = timersFire c fs (snd (timerFires c t m dec s))"

section \<open>Scanning a file\<close>

text \<open>The \<open>imageFile\<close> argument: falsy, a value that is not a \<open>File\<close>, or a \<open>File\<close>.\<close>

datatype fileArg = NoFile | NotAFile | AFile nat

definition possiblyCloseLastScanImageFile :: "scanner \<Rightarrow> scanner" where
  "possiblyCloseLastScanImageFile s =
     (case lastScanImageFile s of
        None \<Rightarrow> s
      | Some f \<Rightarrow> (perform (RevokeObjectURL f) s)\<lparr>lastScanImageFile := None\<rparr>)"

text \<open>\<open>scanFile\<close> up to the point where it returns its Promise: it throws, or returns the
  Promise with the image loading (pending), or rejected by an exception of
  \<open>_clearElement\<close> in the executor.\<close>

definition scanFile :: "fileArg \<Rightarrow> bool option \<Rightarrow> scanner \<Rightarrow> string promise completion \<times> scanner" where
  "scanFile imageFile showImage s =
     (case imageFile of
        AFile f \<Rightarrow>
          (if isScanning s then (Throws CloseOngoingScan, s)
           else
             (let s1 = possiblyCloseLastScanImageFile s
              in case clearElement s1 of
                   (Throws e, s2) \<Rightarrow> (Returns (Rejected (Exception e)), s2)
                 | (Returns u, s2) \<Rightarrow>
                     (Returns Pending,
                      perform (LoadImage f) (s2\<lparr>lastScanImageFile := Some f\<rparr>))))
      | _ \<Rightarrow> (Throws ImageFileMandatory, s))"

section \<open>Listing the cameras\<close>

record mediaDeviceInfo =
  device_kind :: string
  device_deviceId :: string
  device_label :: string

record camera =
  camera_id :: string
  camera_label :: string

text \<open>The loop of \<open>getCameras\<close> over the enumerated devices, from index \<open>i\<close> on.\<close>

function collectCameras :: "mediaDeviceInfo list \<Rightarrow> nat \<Rightarrow> camera list \<Rightarrow> camera list" where
  "collectCameras devices i results =
     (if i < length devices
      then (let device = devices ! i
            in collectCameras devices (Suc i)
                 (if device_kind device = ''videoinput''
                  then results @ [\<lparr>camera_id = device_deviceId device,
                                   camera_label = device_label device\<rparr>]
                  else results))
      else results)"
  by pat_completeness auto
termination
  by (relation "measure (\<lambda>(devices, i, results). length devices - i)") auto

text \<open>The loop of the older path over \<open>sourceInfos\<close>; its entries have \<open>id\<close>, not
  \<open>deviceId\<close>, and the kind it keeps is \<open>video\<close>. It runs while \<open>i !== length\<close>: from an
  index past the end it would read \<open>undefined.kind\<close>.\<close>

record sourceInfo =
  source_kind :: string
  source_id :: string
  source_label :: string

function collectSources ::
  "sourceInfo list \<Rightarrow> nat \<Rightarrow> camera list \<Rightarrow> camera list completion" where
  "collectSources sourceInfos i results =
     (if i = length sourceInfos then Returns results
      else if i > length sourceInfos then Throws TypeError
      else (let sourceInfo = sourceInfos ! i
            in collectSources sourceInfos (Suc i)
                 (if source_kind sourceInfo = ''video''
                  then results @ [\<lparr>camera_id = source_id sourceInfo,
                                   camera_label = source_label sourceInfo\<rparr>]
                  else results)))"
  by pat_completeness auto
termination
  by (relation "measure (\<lambda>(sourceInfos, i, results). length sourceInfos - i)") auto

text \<open>The browser as \<open>getCameras\<close> sees it: whether \<open>navigator.mediaDevices\<close> has
  \<open>enumerateDevices\<close> and \<open>getUserMedia\<close>, what these two answer (an error's name and
  message, or the permission and the devices), and what \<open>MediaStreamTrack.getSources\<close>
  passes to its callback. Without a global \<open>MediaStreamTrack\<close> the test of the older
  path is itself a \<open>ReferenceError\<close>.\<close>

datatype legacySources = NoMediaStreamTrack | NoGetSources | GetSources "sourceInfo list"

record jsError =
  error_name :: string
  error_message :: string

record navigator =
  nav_mediaDevices :: bool
  nav_getUserMedia :: "jsError option"
  nav_enumerateDevices :: "jsError + mediaDeviceInfo list"
  nav_getSources :: legacySources

definition getCameras :: "navigator \<Rightarrow> camera list promise" where
  "getCameras nav =
     (if nav_mediaDevices nav then
        (case nav_getUserMedia nav of
           Some err \<Rightarrow> Rejected (Message (error_name err @ '' : '' @ error_message err))
         | None \<Rightarrow>
             (case nav_enumerateDevices nav of
                Inl err \<Rightarrow> Rejected (Message (error_name err @ '' : '' @ error_message err))
              | Inr devices \<Rightarrow> Resolved (collectCameras devices 0 [])))
      else
        (case nav_getSources nav of
           GetSources sourceInfos \<Rightarrow>
             (case collectSources sourceInfos 0 [] of
                Returns results \<Rightarrow> Resolved results
              | Throws e \<Rightarrow> Pending)
         | NoGetSources \<Rightarrow> Rejected (Message ''unable to query supported devices.'')
         | NoMediaStreamTrack \<Rightarrow> Rejected (Exception ReferenceError)))"

section \<open>The asynchronous part of \<open>start\<close>\<close>

text \<open>The constructor: a new scanner on a page whose container element is found or not
  and has the given client size. The \<open>qrcode\<close> library is taken to be loaded.\<close>

definition newHtml5Qrcode :: "bool \<Rightarrow> number \<Rightarrow> number \<Rightarrow> scanner" where
  "newHtml5Qrcode present clientWidth clientHeight =
     \<lparr>foreverScanTimeout = None, localMediaStream = None, shouldScan = True,
      isScanning = False, videoElement = None, qrRegion = None, context2d = None,
      canvasElement = None, lastScanImageFile = None, elementPresent = present,
      element_clientWidth = clientWidth, element_clientHeight = clientHeight,
      element_children = [], qrcode_callback = None, timers = [], nextTimer = 1,
      effects = []\<rparr>"

text \<open>After \<open>start\<close> has returned, the rest of it runs in callbacks: of \<open>getUserMedia\<close>,
  of the video element's events, of the Promise \<open>onMediaStreamReceived\<close> returns (the
  inner one) and of timeouts. A run of one \<open>start\<close> call holds the scanner, what the
  callbacks captured, which callbacks are registered (the answer of \<open>getUserMedia\<close> is
  awaited; the video element's handlers are set), and the two Promises with whether
  the reaction to the inner one has run.\<close>

record startRun =
  run_scanner :: scanner
  run_closure :: startClosure
  run_awaitingStream :: bool
  run_videoListening :: bool
  run_inner :: "unit promise"
  run_innerHandled :: bool
  run_outer :: "unit promise"

definition beginRun :: "startRequest \<Rightarrow> scanner \<Rightarrow> startRun" where
  "beginRun req s =
     \<lparr>run_scanner = s, run_closure = request_closure req,
      run_awaitingStream = (request_promise req = Pending),
      run_videoListening = False, run_inner = Pending, run_innerHandled = False,
      run_outer = request_promise req\<rparr>"

text \<open>\<open>onMediaStreamReceived\<close> with its \<open>setupVideo\<close>: the stream is stored, the video
  element is created and appended, its \<open>onplaying\<close>, \<open>onabort\<close> and \<open>onerror\<close> handlers
  are set, and \<open>play()\<close> is called.\<close>

definition onMediaStreamReceived :: "mediaStream \<Rightarrow> startRun \<Rightarrow> startRun" where
  "onMediaStreamReceived mediaStream r =
     (let s1 = (run_scanner r)\<lparr>localMediaStream := Some mediaStream\<rparr>;
          v = createVideoElement (closure_width (run_closure r));
          s2 = s1\<lparr>element_children := element_children s1 @ [VideoNode v]\<rparr>;
          s3 = perform Play s2;
          s4 = s3\<lparr>videoElement := Some v\<rparr>
      in r\<lparr>run_scanner := s4, run_awaitingStream := False, run_videoListening := True\<rparr>)"


text \<open>\<open>resolve\<close> and \<open>reject\<close> of the inner Promise: a settled Promise stays as it is.\<close>

definition resolveInner :: "startRun \<Rightarrow> startRun" where
  "resolveInner r = (if run_inner r = Pending then r\<lparr>run_inner := Resolved ()\<rparr> else r)"


text \<open>The \<open>onplaying\<close> handler, run when the video's \<open>playing\<close> event fires: the geometry
  is set up from the video's rendered size, the first \<open>foreverScan\<close> runs, and the inner
  Promise is resolved. An exception in \<open>setupUi\<close> or \<open>foreverScan\<close> ends the handler
  there.\<close>

definition onplaying :: "videoMetrics \<Rightarrow> decodeOutcome \<Rightarrow> startRun \<Rightarrow> startRun" where
  "onplaying m dec r =
     (let videoWidth = video_clientWidth m;
          videoHeight = video_clientHeight m
      in case setupUi (run_closure r) videoWidth videoHeight (run_scanner r) of
           (Throws e, s1) \<Rightarrow> r\<lparr>run_scanner := s1\<rparr>
         | (Returns u, s1) \<Rightarrow>
             (case foreverScan (run_closure r) m dec s1 of
                (Throws e, s2) \<Rightarrow> r\<lparr>run_scanner := s2\<rparr>
              | (Returns u2, s2) \<Rightarrow> resolveInner (r\<lparr>run_scanner := s2\<rparr>)))"

text \<open>The reaction of \<open>start\<close> to the inner Promise: \<open>.then\<close> sets \<open>_isScanning\<close> and
  resolves the Promise of \<open>start\<close>, \<open>.catch\<close> rejects it.\<close>

definition onInnerSettled :: "startRun \<Rightarrow> startRun" where
  "onInnerSettled r =
     (case run_inner r of
        Pending \<Rightarrow> r
      | Resolved u \<Rightarrow>
          (let r1 = r\<lparr>run_scanner := (run_scanner r)\<lparr>isScanning := True\<rparr>,
                      run_innerHandled := True\<rparr>
           in if run_outer r1 = Pending then r1\<lparr>run_outer := Resolved ()\<rparr> else r1)
      | Rejected x \<Rightarrow>
          r\<lparr>run_innerHandled := True,
            run_outer := (if run_outer r = Pending then Rejected x else run_outer r)\<rparr>)"







text \<open>What a run has added to the state \<open>s1\<close> that \<open>start\<close> returned with: the platform
  calls made since.\<close>

definition newEffects :: "scanner \<Rightarrow> scanner \<Rightarrow> effect list" where
  "newEffects s1 s = drop (length (effects s1)) (effects s)"


fun isDrawImage :: "effect \<Rightarrow> bool" where
  "isDrawImage (DrawImage a) = True"
| "isDrawImage e = False"

fun isSetTimeout :: "effect \<Rightarrow> bool" where
  "isSetTimeout (SetTimeout t delay) = True"
| "isSetTimeout e = False"

text \<open>The viewfinder geometry is set up: \<open>_qrRegion\<close>, \<open>_context\<close> and \<open>_canvasElement\<close>
  are set, the canvas is a child of the container and has the region's size.\<close>

definition geometrySet :: "scanner \<Rightarrow> bool" where
  "geometrySet s =
     (case qrRegion s of
        None \<Rightarrow> False
      | Some region \<Rightarrow>
          (case canvasElement s of
             None \<Rightarrow> False
           | Some cv \<Rightarrow>
               (context2d s = Some cv
                \<and> CanvasNode cv \<in> set (element_children s)
                \<and> canvas_width cv = rect_width region
                \<and> canvas_height cv = rect_height region)))"

text \<open>The timeout in \<open>_foreverScanTimeout\<close> is pending.\<close>

definition timeoutPending :: "scanner \<Rightarrow> bool" where
  "timeoutPending s =
     (case foreverScanTimeout s of None \<Rightarrow> False | Some t \<Rightarrow> t \<in> set (timers s))"

text \<open>The scan loop has started and is going: since \<open>start\<close> returned, a frame has been
  copied and decoded and a timeout set, and the timeout in \<open>_foreverScanTimeout\<close> is
  pending.\<close>

definition scanLoopStarted :: "scanner \<Rightarrow> scanner \<Rightarrow> bool" where
  "scanLoopStarted s1 s =
     (list_ex isDrawImage (newEffects s1 s)
      \<and> Decode \<in> set (newEffects s1 s)
      \<and> list_ex isSetTimeout (newEffects s1 s)
      \<and> timeoutPending s)"



section \<open>A concrete run\<close>

text \<open>A page with a 300 by 300 container, a scan started with \<open>fps: 10\<close> and
  \<open>qrbox: 250\<close>, and a camera whose stream is 600 by 600 and is rendered at 300 by
  300: \<open>exampleRun\<close> is the run after the stream has arrived and the video has fired
  \<open>playing\<close> once.\<close>

definition exampleConfig :: config where
  "exampleConfig = \<lparr>config_fps = Some 10, config_qrbox = Some 250\<rparr>"

definition exampleClosure :: startClosure where
  "exampleClosure =
     \<lparr>closure_fps = 10, closure_qrbox = Some 250, closure_isShadedBoxEnabled = True,
      closure_width = 300\<rparr>"

definition exampleRequest :: startRequest where
  "exampleRequest = \<lparr>request_closure = exampleClosure, request_promise = Pending\<rparr>"

definition exampleMetrics :: videoMetrics where
  "exampleMetrics =
     \<lparr>video_videoWidth = 600, video_videoHeight = 600,
      video_clientWidth = 300, video_clientHeight = 300\<rparr>"

definition exampleStarted :: scanner where
  "exampleStarted =
     snd (start ''camera-1'' (Some exampleConfig) (Function 0) MediaDevicesApi
            (newHtml5Qrcode True 300 300))"

definition exampleRun :: startRun where
  "exampleRun =
     onplaying exampleMetrics DecodeReturns
       (onMediaStreamReceived \<lparr>stream_id = 0, stream_videoTracks = 1\<rparr>
          (beginRun exampleRequest exampleStarted))"

text \<open>The scanner once the Promise of \<open>start\<close> has resolved: a camera scan is
  ongoing.\<close>

definition exampleScanning :: scanner where
  "exampleScanning = run_scanner (onInnerSettled exampleRun)"





text \<open>A browser that enumerates a microphone and two cameras.\<close>

definition exampleNavigator :: navigator where
  "exampleNavigator =
     \<lparr>nav_mediaDevices = True, nav_getUserMedia = None,
      nav_enumerateDevices = Inr
        [\<lparr>device_kind = ''audioinput'', device_deviceId = ''a1'', device_label = ''Mic''\<rparr>,
         \<lparr>device_kind = ''videoinput'', device_deviceId = ''v1'', device_label = ''Front''\<rparr>,
         \<lparr>device_kind = ''videoinput'', device_deviceId = ''v2'', device_label = ''Back''\<rparr>],
      nav_getSources = NoGetSources\<rparr>"

section \<open>Properties of rounding\<close>

lemma pow2_pos [simp]: "0 < (2::rat) powi e"
  by (simp add: zero_less_power_int)

lemma pow2_le_cancel: "(2::rat) powi a \<le> 2 powi b \<Longrightarrow> a \<le> b"
proof (rule ccontr)
  assume le: "(2::rat) powi a \<le> 2 powi b" and "\<not> a \<le> b"
  then have "b < a" by simp
  then have "(2::rat) powi b < 2 powi a" by (rule power_int_strict_increasing) simp
  with le show False by simp
qed

lemma pow2_less_cancel: "(2::rat) powi a < 2 powi b \<Longrightarrow> a < b"
proof (rule ccontr)
  assume lt: "(2::rat) powi a < 2 powi b" and "\<not> a < b"
  then have "b \<le> a" by simp
  then have "(2::rat) powi b \<le> 2 powi a" by (rule power_int_increasing) simp
  with lt show False by simp
qed

lemma pow2_split: "b \<le> a \<Longrightarrow> (2::rat) powi a = of_int (2 ^ nat (a - b)) * 2 powi b"
proof -
  assume "b \<le> a"
  have "(2::rat) powi a = 2 powi ((a - b) + b)" by simp
  also have "\<dots> = 2 powi (a - b) * 2 powi b" by (rule power_int_add) simp
  also have "(2::rat) powi (a - b) = of_int (2 ^ nat (a - b))"
    using \<open>b \<le> a\<close> by (simp add: power_int_nonneg_exp)
  finally show ?thesis .
qed

lemma int_pow2_bounds:
  assumes "0 < (a::int)"
  shows "(2::rat) powi (bitlen a - 1) \<le> of_int a" "of_int a < (2::rat) powi bitlen a"
proof -
  from bitlen_bounds [OF assms]
  have lo: "2 ^ nat (bitlen a - 1) \<le> a" and hi: "a < 2 ^ nat (bitlen a)" by simp_all
  have ge1: "1 \<le> bitlen a"
    using assms bitlen_eq_zero_iff [of a] bitlen_nonneg [of a] by linarith
  have "(2::rat) powi (bitlen a - 1) = of_int (2 ^ nat (bitlen a - 1))"
    using ge1 by (simp add: power_int_nonneg_exp)
  also have "\<dots> \<le> of_int a" using lo by (simp only: of_int_le_iff)
  finally show "(2::rat) powi (bitlen a - 1) \<le> of_int a" .
  have "of_int a < (of_int (2 ^ nat (bitlen a)) :: rat)" using hi by (simp only: of_int_less_iff)
  also have "\<dots> = 2 powi bitlen a"
    using ge1 by (simp add: power_int_nonneg_exp)
  finally show "of_int a < (2::rat) powi bitlen a" .
qed

lemma exponentOf_bounds:
  assumes "0 < x"
  shows "2 powi exponentOf x \<le> x" "x < 2 powi (exponentOf x + 1)"
proof -
  obtain a b where q: "quotient_of x = (a, b)" by (cases "quotient_of x")
  have b: "0 < b" using quotient_of_denom_pos [OF q] .
  have x: "x = of_int a / of_int b" using quotient_of_div [OF q] .
  have a: "0 < a"
    using assms b by (simp add: x zero_less_divide_iff)
  define d where "d = bitlen a - bitlen b"
  note A = int_pow2_bounds [OF a] and B = int_pow2_bounds [OF b]
  have bq: "0 < (of_int b :: rat)" using b by simp
  have "x < 2 powi bitlen a / of_int b"
    using A(2) bq by (simp add: x divide_strict_right_mono)
  also have "\<dots> \<le> 2 powi bitlen a / 2 powi (bitlen b - 1)"
    using B(1) bq by (intro divide_left_mono mult_pos_pos) simp_all
  also have "\<dots> = 2 powi (d + 1)"
    by (simp add: d_def power_int_diff [symmetric] algebra_simps)
  finally have hi: "x < 2 powi (d + 1)" .
  have "(2::rat) powi (d - 1) = 2 powi (bitlen a - 1) / 2 powi bitlen b"
    by (simp add: d_def power_int_diff [symmetric] algebra_simps)
  also have "\<dots> \<le> of_int a / 2 powi bitlen b"
    using A(1) by (intro divide_right_mono) simp_all
  also have "\<dots> \<le> of_int a / of_int b"
    using B(2) a bq by (intro divide_left_mono mult_pos_pos) simp_all
  finally have lo: "2 powi (d - 1) \<le> x" by (simp add: x)
  have e: "exponentOf x = (if 2 powi d \<le> x then d else d - 1)"
    by (simp add: exponentOf_def q d_def Let_def)
  show "2 powi exponentOf x \<le> x" using lo by (simp add: e)
  show "x < 2 powi (exponentOf x + 1)" using hi by (auto simp: e)
qed

lemma exponentOf_eq:
  assumes "0 < x" "2 powi e \<le> x" "x < 2 powi (e + 1)"
  shows "exponentOf x = e"
proof -
  note E = exponentOf_bounds [OF assms(1)]
  from E(1) assms(3) have "(2::rat) powi exponentOf x < 2 powi (e + 1)" by simp
  then have 1: "exponentOf x < e + 1" by (rule pow2_less_cancel)
  from assms(2) E(2) have "(2::rat) powi e < 2 powi (exponentOf x + 1)" by simp
  then have 2: "e < exponentOf x + 1" by (rule pow2_less_cancel)
  from 1 2 show ?thesis by simp
qed

lemma exponentOf_mono:
  assumes "0 < x" "x \<le> y"
  shows "exponentOf x \<le> exponentOf y"
proof -
  have y: "0 < y" using assms by simp
  from exponentOf_bounds(1) [OF assms(1)] assms(2) exponentOf_bounds(2) [OF y]
  have "(2::rat) powi exponentOf x < 2 powi (exponentOf y + 1)" by simp
  then have "exponentOf x < exponentOf y + 1" by (rule pow2_less_cancel)
  then show ?thesis by simp
qed

lemma roundTiesToEven_near:
  "\<bar>of_int (roundTiesToEven m) - m\<bar> \<le> 1 / 2"
proof -
  define r where "r = m - of_int \<lfloor>m\<rfloor>"
  have r: "0 \<le> r" "r < 1" using floor_correct [of m] by (simp_all add: r_def)
  have m: "m = of_int \<lfloor>m\<rfloor> + r" by (simp add: r_def)
  have "roundTiesToEven m =
      (if r < 1 / 2 then \<lfloor>m\<rfloor>
       else if r > 1 / 2 then \<lfloor>m\<rfloor> + 1
       else if even \<lfloor>m\<rfloor> then \<lfloor>m\<rfloor> else \<lfloor>m\<rfloor> + 1)"
    unfolding roundTiesToEven_def Let_def r_def by (rule refl)
  then have "roundTiesToEven m = \<lfloor>m\<rfloor> \<and> r \<le> 1 / 2
      \<or> roundTiesToEven m = \<lfloor>m\<rfloor> + 1 \<and> 1 / 2 \<le> r"
    by (simp split: if_splits)
  then show ?thesis
  proof
    assume "roundTiesToEven m = \<lfloor>m\<rfloor> \<and> r \<le> 1 / 2"
    then show ?thesis using r by (subst (2) m) simp
  next
    assume "roundTiesToEven m = \<lfloor>m\<rfloor> + 1 \<and> 1 / 2 \<le> r"
    then show ?thesis using r by (subst (2) m) simp
  qed
qed

lemma roundTiesToEven_le:
  assumes "m \<le> of_int k"
  shows "roundTiesToEven m \<le> k"
proof -
  have f: "\<lfloor>m\<rfloor> \<le> k" using assms by (simp add: floor_le_iff)
  show ?thesis
  proof (cases "m = of_int k")
    case True
    then show ?thesis by (simp add: roundTiesToEven_def)
  next
    case False
    with assms have "m < of_int k" by simp
    then have "\<lfloor>m\<rfloor> < k" by (simp add: floor_less_iff)
    then show ?thesis by (simp add: roundTiesToEven_def Let_def)
  qed
qed

lemma roundTiesToEven_ge:
  assumes "of_int k \<le> m"
  shows "k \<le> roundTiesToEven m"
proof -
  have "k \<le> \<lfloor>m\<rfloor>" using assms by (simp add: le_floor_iff)
  then show ?thesis by (simp add: roundTiesToEven_def Let_def)
qed

lemma roundTiesToEven_of_int [simp]: "roundTiesToEven (of_int k) = k"
  by (simp add: roundTiesToEven_def)

lemma ulpAt_pos [simp]: "0 < ulpAt x"
  by (simp add: ulpAt_def)

lemma ulpAt_nonneg [simp]: "0 \<le> ulpAt x"
  by (simp add: ulpAt_def less_imp_le)

lemma ulpAt_neq0 [simp]: "ulpAt x \<noteq> 0"
  by (simp add: ulpAt_def)

lemma roundDouble_le_double:
  assumes "0 < x" "x \<le> y" "roundDouble y = y"
  shows "roundDouble x \<le> y"
proof -
  have y: "0 < y" using assms by simp
  define gx where "gx = max (exponentOf x) (- 1022) - 52"
  define gy where "gy = max (exponentOf y) (- 1022) - 52"
  have ux: "ulpAt x = 2 powi gx" using assms(1) by (simp add: ulpAt_def gx_def)
  have uy: "ulpAt y = 2 powi gy" using y by (simp add: ulpAt_def gy_def)
  have g: "gx \<le> gy"
    using exponentOf_mono [OF assms(1,2)] by (simp add: gx_def gy_def)
  define n where "n = roundTiesToEven (y / ulpAt y)"
  have yn: "y = of_int n * ulpAt y"
    using assms(3) y by (simp add: roundDouble_def n_def)
  define k where "k = n * 2 ^ nat (gy - gx)"
  have yk: "y = of_int k * ulpAt x"
    by (subst yn) (simp add: uy ux pow2_split [OF g] k_def)
  have "x / ulpAt x \<le> y / ulpAt x"
    using assms(2) by (intro divide_right_mono) simp_all
  also have "\<dots> = of_int k" by (subst yk) simp
  finally have "roundTiesToEven (x / ulpAt x) \<le> k" by (rule roundTiesToEven_le)
  then have "(of_int (roundTiesToEven (x / ulpAt x)) :: rat) \<le> of_int k"
    by (simp only: of_int_le_iff)
  then have "of_int (roundTiesToEven (x / ulpAt x)) * ulpAt x \<le> of_int k * ulpAt x"
    by (rule mult_right_mono) simp
  then show ?thesis using assms(1) yk by (simp add: roundDouble_def)
qed

lemma roundDouble_error:
  assumes "2 powi (- 1022) \<le> x"
  shows "\<bar>roundDouble x - x\<bar> \<le> x / 2 ^ 53"
proof -
  have x: "0 < x" using assms pow2_pos [of "- 1022"] by linarith
  note E = exponentOf_bounds [OF x]
  define e where "e = exponentOf x"
  from assms E(2) have "(2::rat) powi (- 1022) < 2 powi (e + 1)" by (simp add: e_def)
  then have e: "- 1022 \<le> e" using pow2_less_cancel [of "- 1022" "e + 1"] by simp
  define u where "u = ulpAt x"
  have u: "u = 2 powi (e - 52)" using x e by (simp add: u_def ulpAt_def e_def max_def)
  have up: "0 < u" by (simp add: u_def)
  define n where "n = roundTiesToEven (x / u)"
  have r: "roundDouble x = of_int n * u" using x by (simp add: roundDouble_def n_def u_def)
  have "roundDouble x - x = (of_int n - x / u) * u"
    using up by (simp add: r field_simps)
  then have "\<bar>roundDouble x - x\<bar> = \<bar>of_int n - x / u\<bar> * u"
    using up by (simp add: abs_mult)
  also have "\<dots> \<le> (1 / 2) * u"
    using roundTiesToEven_near [of "x / u"] up by (intro mult_right_mono) (simp_all add: n_def)
  also have "\<dots> = 2 powi e / 2 ^ 53"
  proof -
    have "(2::rat) powi (e - 52) = 2 powi e / 2 powi 52" by (rule power_int_diff) simp
    then show ?thesis by (simp add: u)
  qed
  also have "\<dots> \<le> x / 2 ^ 53"
    using E(1) by (intro divide_right_mono) (simp_all add: e_def)
  finally show ?thesis .
qed

lemma roundDouble_eval:
  assumes "0 < x" "2 powi e \<le> x" "x < 2 powi (e + 1)"
  shows "roundDouble x =
     of_int (roundTiesToEven (x / 2 powi (max e (- 1022) - 52))) * 2 powi (max e (- 1022) - 52)"
  using assms(1) exponentOf_eq [OF assms] by (simp add: roundDouble_def ulpAt_def)

lemma roundTiesToEven_down:
  assumes "of_int n \<le> m" "m < of_int n + 1 / 2"
  shows "roundTiesToEven m = n"
proof -
  from assms have "m < of_int n + 1" by simp
  with assms(1) have f: "\<lfloor>m\<rfloor> = n" by (intro floor_unique) simp_all
  show ?thesis using assms(2) by (simp add: roundTiesToEven_def Let_def f)
qed

lemma roundTiesToEven_up:
  assumes "of_int n - 1 / 2 < m" "m \<le> of_int n"
  shows "roundTiesToEven m = n"
proof (cases "m = of_int n")
  case True
  then show ?thesis by simp
next
  case False
  with assms(2) have lt: "m < of_int n" by simp
  from assms(1) have "of_int (n - 1) \<le> m" by simp
  moreover from lt have "m < of_int (n - 1) + 1" by simp
  ultimately have f: "\<lfloor>m\<rfloor> = n - 1" by (rule floor_unique)
  show ?thesis using assms(1) by (simp add: roundTiesToEven_def Let_def f)
qed

lemma roundDouble_down:
  assumes "0 < x" "2 powi e \<le> x" "x < 2 powi (e + 1)"
    and "u = 2 powi (max e (- 1022) - 52)"
    and "of_int n * u \<le> x" "x < (of_int n + 1 / 2) * u"
  shows "roundDouble x = of_int n * u"
proof -
  have u: "0 < u" by (simp add: assms(4))
  have lo: "of_int n \<le> x / u" using assms(5) u by (simp add: pos_le_divide_eq)
  have hi: "x / u < of_int n + 1 / 2" using assms(6) u by (simp add: pos_divide_less_eq)
  have "roundTiesToEven (x / u) = n" using lo hi by (rule roundTiesToEven_down)
  then show ?thesis
    using roundDouble_eval [OF assms(1-3)] by (simp add: assms(4) [symmetric])
qed

lemma roundDouble_up:
  assumes "0 < x" "2 powi e \<le> x" "x < 2 powi (e + 1)"
    and "u = 2 powi (max e (- 1022) - 52)"
    and "(of_int n - 1 / 2) * u < x" "x \<le> of_int n * u"
  shows "roundDouble x = of_int n * u"
proof -
  have u: "0 < u" by (simp add: assms(4))
  have lo: "of_int n - 1 / 2 < x / u" using assms(5) u by (simp add: pos_less_divide_eq)
  have hi: "x / u \<le> of_int n" using assms(6) u by (simp add: pos_divide_le_eq)
  have "roundTiesToEven (x / u) = n" using lo hi by (rule roundTiesToEven_up)
  then show ?thesis
    using roundDouble_eval [OF assms(1-3)] by (simp add: assms(4) [symmetric])
qed

lemma roundDouble_0 [simp]: "roundDouble 0 = 0"
  by (simp add: roundDouble_def)

lemma roundDouble_1 [simp]: "roundDouble 1 = 1"
  using roundDouble_down [of 1 0 "1 / 2 ^ 52" "2 ^ 52"] by simp

lemma roundDouble_nonneg:
  assumes "0 \<le> x"
  shows "0 \<le> roundDouble x"
proof -
  have "of_int 0 \<le> x / ulpAt x" using assms by simp
  then have "0 \<le> roundTiesToEven (x / ulpAt x)" by (rule roundTiesToEven_ge)
  then show ?thesis by (simp add: roundDouble_def)
qed

lemma roundDouble_le:
  assumes "0 \<le> x" "x \<le> y" "roundDouble y = y"
  shows "roundDouble x \<le> y"
proof (cases "x = 0")
  case True
  with assms show ?thesis by simp
next
  case False
  with assms(1) have "0 < x" by simp
  then show ?thesis using assms(2,3) by (rule roundDouble_le_double)
qed

section \<open>Properties of the still-image layout\<close>

text \<open>A side scaled by a factor below one: the result is not above the side.\<close>

lemma scaled_le:
  assumes "0 < c" "c < s" "0 < t" "roundDouble t = t"
  shows "jsTimes (jsDivide c s) t \<le> t" "0 \<le> jsTimes (jsDivide c s) t"
proof -
  have s: "0 < s" using assms by simp
  have q: "0 \<le> c / s" "c / s \<le> 1" using assms s by simp_all
  have r1: "roundDouble (c / s) \<le> 1" using q by (intro roundDouble_le) simp_all
  have r0: "0 \<le> roundDouble (c / s)" using q(1) by (rule roundDouble_nonneg)
  have p: "0 \<le> roundDouble (c / s) * t" using r0 assms(3) by simp
  have "roundDouble (c / s) * t \<le> 1 * t"
    using r1 assms(3) by (intro mult_right_mono) simp_all
  then have "roundDouble (c / s) * t \<le> t" by simp
  with p show "jsTimes (jsDivide c s) t \<le> t"
    unfolding jsTimes_def jsDivide_def using assms(4) by (intro roundDouble_le)
  show "0 \<le> jsTimes (jsDivide c s) t"
    unfolding jsTimes_def jsDivide_def using p by (rule roundDouble_nonneg)
qed

lemma fitWidth_props:
  assumes "0 < iw" "0 < ih" "0 < cw" "roundDouble ih = ih"
  shows "fst (fitWidth iw ih cw) \<le> cw" "fst (fitWidth iw ih cw) \<le> iw"
    "snd (fitWidth iw ih cw) \<le> ih" "0 \<le> snd (fitWidth iw ih cw)"
    "fst (fitWidth iw ih cw) = iw \<or> fst (fitWidth iw ih cw) = cw"
  using assms scaled_le [of cw iw ih] by (auto simp: fitWidth_def)

lemma fitHeight_props:
  assumes "0 < w1" "0 < ch" "roundDouble w1 = w1"
  shows "snd (fitHeight w1 h1 ch) \<le> ch" "fst (fitHeight w1 h1 ch) \<le> w1"
    "snd (fitHeight w1 h1 ch) \<le> h1"
  using assms scaled_le [of ch h1 w1] by (auto simp: fitHeight_def)

lemma unitRoundoff_bounds: "0 < unitRoundoff" "unitRoundoff < 1"
  by (simp_all add: unitRoundoff_def)

lemma minNormal_pos: "0 < minNormal"
  unfolding minNormal_def by (rule pow2_pos)

lemma maxSize_pos: "0 < maxSize"
  unfolding maxSize_def by (rule pow2_pos)

lemma minNormal_maxSize: "2 * minNormal * maxSize \<le> 1"
proof -
  have "2 * minNormal = (2::rat) powi (- 1022 + 1)"
    unfolding minNormal_def using power_int_add_1 [of "2::rat" "- 1022"] by (simp only: mult.commute) simp
  then have "2 * minNormal * maxSize = (2::rat) powi (- 1022 + 1) * 2 powi 1000"
    by (simp only: maxSize_def)
  also have "\<dots> = (2::rat) powi ((- 1022 + 1) + 1000)"
    by (rule power_int_add [symmetric]) simp
  also have "\<dots> \<le> 2 powi 0" by (rule power_int_increasing) simp_all
  finally show ?thesis by simp
qed

lemma roundDouble_bounds:
  assumes "minNormal \<le> x"
  shows "x * (1 - unitRoundoff) \<le> roundDouble x" "roundDouble x \<le> x * (1 + unitRoundoff)"
proof -
  from assms have "2 powi (- 1022) \<le> x" by (simp only: minNormal_def)
  from roundDouble_error [OF this]
  have "\<bar>roundDouble x - x\<bar> \<le> x * unitRoundoff" by (simp add: unitRoundoff_def)
  then show "x * (1 - unitRoundoff) \<le> roundDouble x" "roundDouble x \<le> x * (1 + unitRoundoff)"
    by (simp_all add: abs_le_iff algebra_simps)
qed

lemma half_le_one_minus: "1 / 2 \<le> 1 - unitRoundoff"
  by (simp add: unitRoundoff_def)

lemma scaled_bounds:
  assumes "0 < c" "0 < s" "1 \<le> t" "2 * minNormal \<le> c / s"
  shows "c * t / s * (1 - unitRoundoff)\<^sup>2 \<le> jsTimes (jsDivide c s) t"
    and "jsTimes (jsDivide c s) t \<le> c * t / s * (1 + unitRoundoff)\<^sup>2"
    and "0 < jsTimes (jsDivide c s) t"
proof -
  define a where "a = c / s"
  define ra where "ra = roundDouble a"
  define p where "p = ra * t"
  let ?u = unitRoundoff
  have u: "0 < 1 - ?u" "0 < 1 + ?u" using unitRoundoff_bounds by simp_all
  have a0: "0 < a" using assms by (simp add: a_def)
  have an: "minNormal \<le> a" using assms(4) minNormal_pos by (simp add: a_def)
  note A = roundDouble_bounds [OF an]
  have "minNormal \<le> a * (1 / 2)" using assms(4) by (simp add: a_def)
  also have "\<dots> \<le> a * (1 - ?u)"
    using half_le_one_minus a0 by (intro mult_left_mono) simp_all
  also have "\<dots> \<le> ra" using A(1) by (simp add: ra_def)
  finally have ran: "minNormal \<le> ra" .
  have ra0: "0 < ra" using ran minNormal_pos by linarith
  have "ra * 1 \<le> ra * t" using assms(3) ra0 by (intro mult_left_mono) simp_all
  with ran have pn: "minNormal \<le> p" by (simp add: p_def)
  have p0: "0 < p" using pn minNormal_pos by linarith
  note P = roundDouble_bounds [OF pn]
  have t0: "0 < t" using assms(3) by simp
  have r: "jsTimes (jsDivide c s) t = roundDouble p"
    by (simp add: jsTimes_def jsDivide_def p_def ra_def a_def)
  have "c * t / s * (1 - ?u)\<^sup>2 = (a * (1 - ?u)) * t * (1 - ?u)"
    by (simp add: a_def power2_eq_square)
  also have "\<dots> \<le> ra * t * (1 - ?u)"
    using A(1) t0 u by (intro mult_right_mono) (simp_all add: ra_def)
  also have "\<dots> \<le> roundDouble p" using P(1) by (simp add: p_def)
  finally show "c * t / s * (1 - ?u)\<^sup>2 \<le> jsTimes (jsDivide c s) t" by (simp add: r)
  have "roundDouble p \<le> ra * t * (1 + ?u)" using P(2) by (simp add: p_def)
  also have "\<dots> \<le> (a * (1 + ?u)) * t * (1 + ?u)"
    using A(2) t0 u by (intro mult_right_mono) (simp_all add: ra_def)
  also have "\<dots> = c * t / s * (1 + ?u)\<^sup>2"
    by (simp add: a_def power2_eq_square)
  finally show "jsTimes (jsDivide c s) t \<le> c * t / s * (1 + ?u)\<^sup>2" by (simp add: r)
  have "0 < p * (1 - ?u)" using p0 u by simp
  with P(1) show "0 < jsTimes (jsDivide c s) t" by (simp add: r)
qed

lemma quotient_normal:
  fixes c s :: rat
  assumes "1 \<le> c" "0 < s" "s \<le> maxSize"
  shows "2 * minNormal \<le> c / s"
proof -
  have "2 * minNormal * s \<le> 2 * minNormal * maxSize"
    using assms(3) minNormal_pos by (intro mult_left_mono) simp_all
  also have "\<dots> \<le> 1" by (rule minNormal_maxSize)
  also have "\<dots> \<le> c" by (rule assms(1))
  finally show ?thesis using assms(2) by (simp add: pos_le_divide_eq)
qed

text \<open>From bounds on a product to bounds on a quotient.\<close>

lemma quotient_of_scaled:
  fixes T z d e1 e2 :: rat
  assumes "T * e1 \<le> z" "z \<le> T * e2" "0 < d"
  shows "T / d * e1 \<le> z / d" "z / d \<le> T / d * e2"
  using assms by (simp_all add: divide_right_mono)

lemma quotient_by_scaled:
  fixes T z c e1 e2 :: rat
  assumes "T * e1 \<le> z" "z \<le> T * e2" "0 < c" "0 < T" "0 < e1" "0 < e2"
  shows "c / T / e2 \<le> c / z" "c / z \<le> c / T / e1"
proof -
  have z: "0 < z" using assms by (meson less_le_trans mult_pos_pos)
  have "c / (T * e2) \<le> c / z"
    using assms z by (intro divide_left_mono mult_pos_pos) simp_all
  then show "c / T / e2 \<le> c / z" by simp
  have "c / z \<le> c / (T * e1)"
    using assms z by (intro divide_left_mono mult_pos_pos) simp_all
  then show "c / z \<le> c / T / e1" by simp
qed

lemma roundoff_factors:
  "1 - 1 / 2 ^ 50 \<le> (1 - unitRoundoff)\<^sup>2 / (1 + unitRoundoff)\<^sup>2"
  "(1 + unitRoundoff)\<^sup>2 / (1 - unitRoundoff)\<^sup>2 \<le> 1 + 1 / 2 ^ 50"
  "(1 - unitRoundoff)\<^sup>2 / (1 + unitRoundoff)\<^sup>2 \<le> (1 - unitRoundoff)\<^sup>2"
  "(1 - unitRoundoff)\<^sup>2 / (1 + unitRoundoff)\<^sup>2 \<le> 1 / (1 + unitRoundoff)\<^sup>2"
  "(1 + unitRoundoff)\<^sup>2 \<le> (1 + unitRoundoff)\<^sup>2 / (1 - unitRoundoff)\<^sup>2"
  "1 / (1 - unitRoundoff)\<^sup>2 \<le> (1 + unitRoundoff)\<^sup>2 / (1 - unitRoundoff)\<^sup>2"
  by (simp_all add: unitRoundoff_def power_divide)

lemma downsample_steps:
  "downsample iw ih cw ch = fitHeight (fst (fitWidth iw ih cw)) (snd (fitWidth iw ih cw)) ch"
  by (simp add: downsample_def split_beta)

lemma downsample_props:
  assumes "0 < iw" "0 < ih" "0 < cw" "0 < ch"
    and "isDouble iw" "isDouble ih" "isDouble cw"
  shows "fst (downsample iw ih cw ch) \<le> cw" "snd (downsample iw ih cw ch) \<le> ch"
    "fst (downsample iw ih cw ch) \<le> iw" "snd (downsample iw ih cw ch) \<le> ih"
proof -
  let ?w1 = "fst (fitWidth iw ih cw)" and ?h1 = "snd (fitWidth iw ih cw)"
  have d: "roundDouble iw = iw" "roundDouble ih = ih" "roundDouble cw = cw"
    using assms(5-7) by (simp_all add: isDouble_def)
  note W = fitWidth_props [OF assms(1-3) d(2)]
  have w1: "0 < ?w1" "roundDouble ?w1 = ?w1"
    using W(5) assms(1,3) d(1,3) by auto
  note H = fitHeight_props [OF w1(1) assms(4) w1(2), of ?h1]
  show "snd (downsample iw ih cw ch) \<le> ch" using H(1) by (simp add: downsample_steps)
  show "fst (downsample iw ih cw ch) \<le> cw" using H(2) W(1) by (simp add: downsample_steps)
  show "fst (downsample iw ih cw ch) \<le> iw" using H(2) W(2) by (simp add: downsample_steps)
  show "snd (downsample iw ih cw ch) \<le> ih" using H(3) W(3) by (simp add: downsample_steps)
qed

lemma downsample_ratio:
  assumes "isSize iw" "isSize ih" "isSize cw" "isSize ch"
    and "\<not> (iw \<le> cw \<and> ih \<le> ch)"
  shows "0 < fst (downsample iw ih cw ch)" "0 < snd (downsample iw ih cw ch)"
    "iw / ih * ((1 - unitRoundoff)\<^sup>2 / (1 + unitRoundoff)\<^sup>2)
       \<le> fst (downsample iw ih cw ch) / snd (downsample iw ih cw ch)"
    "fst (downsample iw ih cw ch) / snd (downsample iw ih cw ch)
       \<le> iw / ih * ((1 + unitRoundoff)\<^sup>2 / (1 - unitRoundoff)\<^sup>2)"
proof -
  let ?e1 = "(1 - unitRoundoff)\<^sup>2" and ?e2 = "(1 + unitRoundoff)\<^sup>2"
  let ?d = "downsample iw ih cw ch"
  have e: "0 < ?e1" "0 < ?e2" using unitRoundoff_bounds by simp_all
  have p: "1 \<le> iw" "1 \<le> ih" "1 \<le> cw" "1 \<le> ch"
    and m: "iw \<le> maxSize" "ih \<le> maxSize"
    and dbl: "roundDouble ih = ih"
    using assms(1-4) by (simp_all add: isSize_def isDouble_def)
  have pos: "0 < iw" "0 < ih" "0 < cw" "0 < ch" using p by simp_all
  have R: "0 < iw / ih" using pos by simp
  note F = roundoff_factors
  have goal: "0 < fst ?d \<and> 0 < snd ?d \<and> iw / ih * (?e1 / ?e2) \<le> fst ?d / snd ?d
      \<and> fst ?d / snd ?d \<le> iw / ih * (?e2 / ?e1)"
  proof (cases "cw < iw")
    case True
    define z1 where "z1 = jsTimes (jsDivide cw iw) ih"
    have fw: "fitWidth iw ih cw = (cw, z1)" using True by (simp add: fitWidth_def z1_def)
    note Z1 = scaled_bounds [OF pos(3) pos(1) p(2) quotient_normal [OF p(3) pos(1) m(1)],
        folded z1_def]
    have "z1 \<le> ih" using scaled_le(1) [OF pos(3) True pos(2) dbl] by (simp add: z1_def)
    with m(2) have z1m: "z1 \<le> maxSize" by simp
    have T1: "0 < cw * ih / iw" using pos by simp
    note Q = quotient_by_scaled [OF Z1(1) Z1(2) pos(3) T1 e]
    have cT: "cw / (cw * ih / iw) = iw / ih" using pos by simp
    have q1: "iw / ih / ?e2 \<le> cw / z1" and q2: "cw / z1 \<le> iw / ih / ?e1"
      using Q by (simp_all only: cT)
    show ?thesis
    proof (cases "ch < z1")
      case False
      then have d: "?d = (cw, z1)" by (simp add: downsample_steps fw fitHeight_def)
      have "iw / ih * (?e1 / ?e2) \<le> iw / ih * (1 / ?e2)"
        using F(4) R by (intro mult_left_mono) simp_all
      with q1 have lo: "iw / ih * (?e1 / ?e2) \<le> cw / z1" by simp
      have "iw / ih * (1 / ?e1) \<le> iw / ih * (?e2 / ?e1)"
        using F(6) R by (intro mult_left_mono) simp_all
      with q2 have hi: "cw / z1 \<le> iw / ih * (?e2 / ?e1)" by simp
      from lo hi Z1(3) pos(3) show ?thesis by (simp add: d)
    next
      case c2: True
      define z2 where "z2 = jsTimes (jsDivide ch z1) cw"
      have d: "?d = (z2, ch)" using c2 by (simp add: downsample_steps fw fitHeight_def z2_def)
      note Z2 = scaled_bounds [OF pos(4) Z1(3) p(3) quotient_normal [OF p(4) Z1(3) z1m],
          folded z2_def]
      note S = quotient_of_scaled [OF Z2(1) Z2(2) pos(4)]
      have t: "ch * cw / z1 / ch = cw / z1" using pos by simp
      have s1: "cw / z1 * ?e1 \<le> z2 / ch" and s2: "z2 / ch \<le> cw / z1 * ?e2"
        using S by (simp_all only: t)
      have "iw / ih / ?e2 * ?e1 \<le> cw / z1 * ?e1"
        using q1 e by (intro mult_right_mono) simp_all
      with s1 have lo: "iw / ih * (?e1 / ?e2) \<le> z2 / ch" by simp
      have "cw / z1 * ?e2 \<le> iw / ih / ?e1 * ?e2"
        using q2 e by (intro mult_right_mono) simp_all
      with s2 have hi: "z2 / ch \<le> iw / ih * (?e2 / ?e1)" by simp
      from lo hi Z2(3) pos(4) show ?thesis by (simp add: d)
    qed
  next
    case False
    with assms(5) have hgt: "ch < ih" by simp
    define z where "z = jsTimes (jsDivide ch ih) iw"
    have d: "?d = (z, ch)"
      using False hgt by (simp add: downsample_steps fitWidth_def fitHeight_def z_def)
    note Z = scaled_bounds [OF pos(4) pos(2) p(1) quotient_normal [OF p(4) pos(2) m(2)],
        folded z_def]
    note S = quotient_of_scaled [OF Z(1) Z(2) pos(4)]
    have t: "ch * iw / ih / ch = iw / ih" using pos by simp
    have s1: "iw / ih * ?e1 \<le> z / ch" and s2: "z / ch \<le> iw / ih * ?e2"
      using S by (simp_all only: t)
    have "iw / ih * (?e1 / ?e2) \<le> iw / ih * ?e1"
      using F(3) R by (intro mult_left_mono) simp_all
    with s1 have lo: "iw / ih * (?e1 / ?e2) \<le> z / ch" by simp
    have "iw / ih * ?e2 \<le> iw / ih * (?e2 / ?e1)"
      using F(5) R by (intro mult_left_mono) simp_all
    with s2 have hi: "z / ch \<le> iw / ih * (?e2 / ?e1)" by simp
    from lo hi Z(3) pos(4) show ?thesis by (simp add: d)
  qed
  from goal show "0 < fst ?d" "0 < snd ?d"
    "iw / ih * (?e1 / ?e2) \<le> fst ?d / snd ?d" "fst ?d / snd ?d \<le> iw / ih * (?e2 / ?e1)"
    by simp_all
qed

lemma within_rounding:
  fixes r x :: rat
  assumes "0 < r"
    and "r * ((1 - unitRoundoff)\<^sup>2 / (1 + unitRoundoff)\<^sup>2) \<le> x"
    and "x \<le> r * ((1 + unitRoundoff)\<^sup>2 / (1 - unitRoundoff)\<^sup>2)"
  shows "\<bar>x - r\<bar> \<le> r / 2 ^ 50"
proof -
  define eps :: rat where "eps = 1 / 2 ^ 50"
  have "r * (1 - eps) \<le> r * ((1 - unitRoundoff)\<^sup>2 / (1 + unitRoundoff)\<^sup>2)"
    unfolding eps_def using roundoff_factors(1) assms(1) by (intro mult_left_mono) simp_all
  from this assms(2) have lo: "r * (1 - eps) \<le> x" by (rule order_trans)
  have "r * ((1 + unitRoundoff)\<^sup>2 / (1 - unitRoundoff)\<^sup>2) \<le> r * (1 + eps)"
    unfolding eps_def using roundoff_factors(2) assms(1) by (intro mult_left_mono) simp_all
  with assms(3) have hi: "x \<le> r * (1 + eps)" by (rule order_trans)
  from lo hi have "\<bar>x - r\<bar> \<le> r * eps" by (simp add: abs_le_iff algebra_simps)
  then show ?thesis by (simp add: eps_def)
qed

lemma calls_sound:
  "computeCanvasDrawConfig_calls n iw ih cw ch = Some cfg
   \<Longrightarrow> computeCanvasDrawConfig iw ih cw ch = Some cfg"
proof (induction n arbitrary: iw ih)
  case 0
  then show ?case
    by (subst computeCanvasDrawConfig.simps) (simp split: if_splits)
next
  case (Suc n)
  show ?case
  proof (cases "iw \<le> cw \<and> ih \<le> ch")
    case True
    with Suc.prems show ?thesis
      by (subst computeCanvasDrawConfig.simps) simp
  next
    case False
    with Suc.prems have
      "computeCanvasDrawConfig_calls n (fst (downsample iw ih cw ch))
         (snd (downsample iw ih cw ch)) cw ch = Some cfg"
      by simp
    from Suc.IH [OF this] False show ?thesis
      by (subst computeCanvasDrawConfig.simps) auto
  qed
qed

lemma one_call_suffices:
  assumes "0 < iw" "0 < ih" "0 < cw" "0 < ch"
    and "isDouble iw" "isDouble ih" "isDouble cw"
  shows "computeCanvasDrawConfig_calls 1 iw ih cw ch =
     Some (if iw \<le> cw \<and> ih \<le> ch then noDownsampling iw ih cw ch
           else noDownsampling (fst (downsample iw ih cw ch))
                  (snd (downsample iw ih cw ch)) cw ch)"
  using downsample_props(1,2) [OF assms] by simp

text \<open>The layout of an image of 600 by 1400 in a container of 300 by 300, operation by
  operation.\<close>

lemma isDouble_600: "isDouble 600"
  using roundDouble_down [of 600 9 "1 / 2 ^ 43" "600 * 2 ^ 43"] by (simp add: isDouble_def)

lemma isDouble_1400: "isDouble 1400"
  using roundDouble_down [of 1400 10 "1 / 2 ^ 42" "1400 * 2 ^ 42"] by (simp add: isDouble_def)

lemma isDouble_300: "isDouble 300"
  using roundDouble_down [of 300 8 "1 / 2 ^ 44" "300 * 2 ^ 44"] by (simp add: isDouble_def)

lemma example_step1: "jsDivide 300 600 = 1 / 2"
  using roundDouble_down [of "1 / 2" "- 1" "1 / 2 ^ 53" "2 ^ 52"] by (simp add: jsDivide_def)

lemma example_step2: "jsTimes (1 / 2) 1400 = 700"
  using roundDouble_down [of 700 9 "1 / 2 ^ 43" "700 * 2 ^ 43"] by (simp add: jsTimes_def)

lemma example_step3: "jsDivide 300 700 = 7720456504063707 / 18014398509481984"
  using roundDouble_down [of "3 / 7" "- 2" "1 / 2 ^ 54" 7720456504063707]
  by (simp add: jsDivide_def)

lemma example_step4:
  "jsTimes (7720456504063707 / 18014398509481984) 300 = 1130926245712457 / 8796093022208"
  using roundDouble_down [of "7720456504063707 / 2 ^ 54 * 300" 7 "1 / 2 ^ 45" 4523704982849828]
  by (simp add: jsTimes_def)

lemma example_step5:
  "jsMinus 300 (1130926245712457 / 8796093022208) = 1507901660949943 / 8796093022208"
  using roundDouble_down [of "300 - 1130926245712457 / 2 ^ 43" 7 "1 / 2 ^ 45" 6031606643799772]
  by (simp add: jsMinus_def)

lemma example_step6:
  "jsDivide (1507901660949943 / 8796093022208) 2 = 1507901660949943 / 17592186044416"
  using roundDouble_down [of "1507901660949943 / 2 ^ 43 / 2" 6 "1 / 2 ^ 46" 6031606643799772]
  by (simp add: jsDivide_def)

lemma example_step7: "jsMinus 300 300 = 0" "jsDivide 0 2 = 0"
  by (simp_all add: jsMinus_def jsDivide_def)

lemma example_quotients:
  "jsDivide (1130926245712457 / 8796093022208) 300 = 3860228252031853 / 9007199254740992"
  "jsDivide 600 1400 = 7720456504063707 / 18014398509481984"
  using roundDouble_down [of "1130926245712457 / 2 ^ 43 / 300" "- 2" "1 / 2 ^ 54"
      7720456504063706]
    roundDouble_down [of "3 / 7" "- 2" "1 / 2 ^ 54" 7720456504063707]
  by (simp_all add: jsDivide_def)

lemma example_downsample:
  "downsample 600 1400 300 300 = (1130926245712457 / 8796093022208, 300)"
  by (simp add: downsample_def fitWidth_def fitHeight_def
      example_step1 example_step2 example_step3 example_step4)

lemma example_layout:
  "computeCanvasDrawConfig 600 1400 300 300 =
     Some \<lparr>rect_x = 1507901660949943 / 17592186044416, rect_y = 0,
           rect_width = 1130926245712457 / 8796093022208, rect_height = 300\<rparr>"
proof -
  have "computeCanvasDrawConfig_calls 1 600 1400 300 300 =
     Some \<lparr>rect_x = 1507901660949943 / 17592186044416, rect_y = 0,
           rect_width = 1130926245712457 / 8796093022208, rect_height = 300\<rparr>"
    by (simp add: example_downsample noDownsampling_def
        example_step5 example_step6 example_step7)
  then show ?thesis by (rule calls_sound)
qed

text \<open>
  C2, as the claim states it, fails: the aspect ratio of the layout is not the image's.
  For an image of 600 by 1400 in a container of 300 by 300 the first statement leaves
  300 by 700, and the second computes the width \<open>(300 / 700) * 300\<close> with two
  roundings: the layout is \<open>1130926245712457 / 2\<^sup>4\<^sup>3\<close> (128.57142857142856) wide and 300
  high, at \<open>x = 1507901660949943 / 2\<^sup>4\<^sup>4\<close> (85.71428571428572). Its width over its height
  is not \<open>600 / 1400\<close>, as rationals and also as JavaScript computes the two quotients.
\<close>

theorem computeCanvasDrawConfig_rounds_aspect_ratio:
  "isDouble 600 \<and> isDouble 1400 \<and> isDouble 300
   \<and> computeCanvasDrawConfig 600 1400 300 300 =
     Some \<lparr>rect_x = 1507901660949943 / 17592186044416, rect_y = 0,
           rect_width = 1130926245712457 / 8796093022208, rect_height = 300\<rparr>
   \<and> (1130926245712457 / 8796093022208 :: rat) / 300 \<noteq> 600 / 1400
   \<and> jsDivide (1130926245712457 / 8796093022208) 300 \<noteq> jsDivide 600 1400"
  by (simp add: isDouble_600 isDouble_1400 isDouble_300 example_layout example_quotients)

text \<open>
  C2, amended. For positive JavaScript numbers \<open>imageWidth\<close>, \<open>imageHeight\<close>,
  \<open>containerWidth\<close> and \<open>containerHeight\<close>, \<open>computeCanvasDrawConfig\<close> returns a layout
  whose width and height are at most the container's (both dimensions fit) and at most
  the image's (the image is never scaled up), with the offsets
  \<open>x = (containerWidth - width) / 2\<close> and \<open>y = (containerHeight - height) / 2\<close> as
  JavaScript computes them; when the image already fits, the layout keeps the image's
  width and height. The aspect ratio is preserved up to rounding: for sizes between 1
  and \<open>2\<^sup>1\<^sup>0\<^sup>0\<^sup>0\<close> the layout's width over its height differs from
  \<open>imageWidth / imageHeight\<close> by at most that ratio times \<open>2\<^sup>-\<^sup>5\<^sup>0\<close>.
\<close>

theorem computeCanvasDrawConfig_containment_fit:
  assumes "0 < imageWidth" "0 < imageHeight" "0 < containerWidth" "0 < containerHeight"
    and "isDouble imageWidth" "isDouble imageHeight"
    and "isDouble containerWidth" "isDouble containerHeight"
  shows "\<exists>cfg.
      computeCanvasDrawConfig imageWidth imageHeight containerWidth containerHeight = Some cfg
    \<and> rect_width cfg \<le> containerWidth \<and> rect_height cfg \<le> containerHeight
    \<and> rect_width cfg \<le> imageWidth \<and> rect_height cfg \<le> imageHeight
    \<and> rect_x cfg = jsDivide (jsMinus containerWidth (rect_width cfg)) 2
    \<and> rect_y cfg = jsDivide (jsMinus containerHeight (rect_height cfg)) 2
    \<and> (imageWidth \<le> containerWidth \<and> imageHeight \<le> containerHeight
        \<longrightarrow> rect_width cfg = imageWidth \<and> rect_height cfg = imageHeight)
    \<and> (isSize imageWidth \<and> isSize imageHeight \<and> isSize containerWidth
        \<and> isSize containerHeight
        \<longrightarrow> 0 < rect_width cfg \<and> 0 < rect_height cfg
          \<and> \<bar>rect_width cfg / rect_height cfg - imageWidth / imageHeight\<bar>
              \<le> imageWidth / imageHeight / 2 ^ 50)"
proof (cases "imageWidth \<le> containerWidth \<and> imageHeight \<le> containerHeight")
  case True
  let ?cfg = "noDownsampling imageWidth imageHeight containerWidth containerHeight"
  have c: "computeCanvasDrawConfig imageWidth imageHeight containerWidth containerHeight
      = Some ?cfg"
    using True by (subst computeCanvasDrawConfig.simps) simp
  have f: "rect_width ?cfg = imageWidth" "rect_height ?cfg = imageHeight"
    "rect_x ?cfg = jsDivide (jsMinus containerWidth imageWidth) 2"
    "rect_y ?cfg = jsDivide (jsMinus containerHeight imageHeight) 2"
    by (simp_all add: noDownsampling_def)
  have r: "0 \<le> imageWidth / imageHeight / 2 ^ 50" using assms(1,2) by simp
  show ?thesis
    using c True assms(1,2) r
    by (intro exI [of _ ?cfg]) (simp add: f)
next
  case False
  let ?w = "fst (downsample imageWidth imageHeight containerWidth containerHeight)"
  let ?h = "snd (downsample imageWidth imageHeight containerWidth containerHeight)"
  let ?cfg = "noDownsampling ?w ?h containerWidth containerHeight"
  note D = downsample_props [OF assms(1-7)]
  have "computeCanvasDrawConfig_calls 1 imageWidth imageHeight containerWidth containerHeight
      = Some (if imageWidth \<le> containerWidth \<and> imageHeight \<le> containerHeight
              then noDownsampling imageWidth imageHeight containerWidth containerHeight
              else ?cfg)"
    by (rule one_call_suffices [OF assms(1-7)])
  with False have
    "computeCanvasDrawConfig_calls 1 imageWidth imageHeight containerWidth containerHeight
      = Some ?cfg"
    by (simp only: if_False)
  then have c: "computeCanvasDrawConfig imageWidth imageHeight containerWidth containerHeight
      = Some ?cfg"
    by (rule calls_sound)
  have f: "rect_width ?cfg = ?w" "rect_height ?cfg = ?h"
    "rect_x ?cfg = jsDivide (jsMinus containerWidth ?w) 2"
    "rect_y ?cfg = jsDivide (jsMinus containerHeight ?h) 2"
    by (simp_all add: noDownsampling_def)
  have ratio: "0 < ?w \<and> 0 < ?h
      \<and> \<bar>?w / ?h - imageWidth / imageHeight\<bar> \<le> imageWidth / imageHeight / 2 ^ 50"
    if s: "isSize imageWidth \<and> isSize imageHeight \<and> isSize containerWidth
        \<and> isSize containerHeight"
  proof -
    from s have s4: "isSize imageWidth" "isSize imageHeight" "isSize containerWidth"
      "isSize containerHeight" by simp_all
    note R = downsample_ratio [OF s4 False]
    have "0 < imageWidth / imageHeight" using assms(1,2) by simp
    from within_rounding [OF this R(3) R(4)] R(1,2) show ?thesis by simp
  qed
  show ?thesis
    apply (rule exI [of _ ?cfg])
    apply (simp only: f)
    using c D False ratio by blast
qed

theorem computeCanvasDrawConfig_containment_fit_witness:
  "computeCanvasDrawConfig 600 1400 300 300 =
     Some \<lparr>rect_x = 1507901660949943 / 17592186044416, rect_y = 0,
           rect_width = 1130926245712457 / 8796093022208, rect_height = 300\<rparr>
   \<and> (1130926245712457 / 8796093022208 :: rat) \<le> 300
   \<and> \<bar>(1130926245712457 / 8796093022208 :: rat) / 300 - 600 / 1400\<bar> \<le> 600 / 1400 / 2 ^ 50"
proof -
  have s: "isSize 600" "isSize 1400" "isSize 300"
    using isDouble_600 isDouble_1400 isDouble_300 by (simp_all add: isSize_def maxSize_def)
  from computeCanvasDrawConfig_containment_fit
    [OF _ _ _ _ isDouble_600 isDouble_1400 isDouble_300 isDouble_300]
  obtain cfg where c: "computeCanvasDrawConfig 600 1400 300 300 = Some cfg"
    and f: "rect_width cfg \<le> 300"
    and r: "isSize 600 \<and> isSize 1400 \<and> isSize 300 \<and> isSize 300
        \<longrightarrow> 0 < rect_width cfg \<and> 0 < rect_height cfg
          \<and> \<bar>rect_width cfg / rect_height cfg - 600 / 1400\<bar> \<le> 600 / 1400 / 2 ^ 50"
    by auto
  from r s have "\<bar>rect_width cfg / rect_height cfg - 600 / 1400\<bar> \<le> 600 / 1400 / 2 ^ 50"
    by blast
  with c f example_layout show ?thesis by auto
qed

text \<open>
  C6. For positive image and container sizes (JavaScript numbers) the recursion of
  \<open>computeCanvasDrawConfig\<close> ends: the function returns a layout, and it returns the
  same layout when it is allowed at most one recursive call, since after one pass of
  the two scaling statements the width is at most the container's width and the height
  at most the container's height, which is the test of the base case. Rounding does not
  disturb this: a factor below one rounds to at most one, and a product below a
  JavaScript number rounds to at most that number.
\<close>

theorem computeCanvasDrawConfig_terminates:
  assumes "0 < imageWidth" "0 < imageHeight" "0 < containerWidth" "0 < containerHeight"
    and "isDouble imageWidth" "isDouble imageHeight"
    and "isDouble containerWidth" "isDouble containerHeight"
  shows "\<exists>cfg.
      computeCanvasDrawConfig imageWidth imageHeight containerWidth containerHeight = Some cfg
    \<and> computeCanvasDrawConfig_calls 1 imageWidth imageHeight containerWidth containerHeight
        = Some cfg
    \<and> fst (downsample imageWidth imageHeight containerWidth containerHeight) \<le> containerWidth
    \<and> snd (downsample imageWidth imageHeight containerWidth containerHeight) \<le> containerHeight"
  using one_call_suffices [OF assms(1-7)] downsample_props(1,2) [OF assms(1-7)]
    calls_sound [of 1 imageWidth imageHeight containerWidth containerHeight]
  by simp

theorem computeCanvasDrawConfig_terminates_witness:
  "computeCanvasDrawConfig_calls 1 600 1400 300 300 =
     Some \<lparr>rect_x = 1507901660949943 / 17592186044416, rect_y = 0,
           rect_width = 1130926245712457 / 8796093022208, rect_height = 300\<rparr>
   \<and> computeCanvasDrawConfig 600 1400 300 300 =
     Some \<lparr>rect_x = 1507901660949943 / 17592186044416, rect_y = 0,
           rect_width = 1130926245712457 / 8796093022208, rect_height = 300\<rparr>
   \<and> computeCanvasDrawConfig_calls 0 600 1400 300 300 = None"
proof -
  from computeCanvasDrawConfig_terminates
    [OF _ _ _ _ isDouble_600 isDouble_1400 isDouble_300 isDouble_300]
  obtain cfg where "computeCanvasDrawConfig 600 1400 300 300 = Some cfg"
    and "computeCanvasDrawConfig_calls 1 600 1400 300 300 = Some cfg"
    by auto
  with example_layout show ?thesis by simp
qed

section \<open>Properties of the viewfinder geometry\<close>






section \<open>Properties of the camera list\<close>

lemma collectCameras_eq:
  "collectCameras devices i results =
     results @ map (\<lambda>d. \<lparr>camera_id = device_deviceId d, camera_label = device_label d\<rparr>)
                 (filter (\<lambda>d. device_kind d = ''videoinput'') (drop i devices))"
proof (induction devices i results rule: collectCameras.induct)
  case (1 devices i results)
  show ?case
  proof (cases "i < length devices")
    case True
    then have d: "drop i devices = devices ! i # drop (Suc i) devices"
      by (simp add: Cons_nth_drop_Suc)
    show ?thesis
      using True "1.IH" [OF True refl]
      by (subst collectCameras.simps) (simp add: d Let_def del: collectCameras.simps)
  next
    case False
    then show ?thesis by simp
  qed
qed

text \<open>
  C4. When the browser has \<open>navigator.mediaDevices\<close>, grants the camera and enumerates
  \<open>devices\<close>, \<open>getCameras\<close> resolves with the devices of kind \<open>videoinput\<close>, each as
  \<open>{id: deviceId, label: label}\<close>, in the order of the enumeration, and with nothing
  else.
\<close>

theorem getCameras_videoinput:
  assumes "nav_mediaDevices nav" "nav_getUserMedia nav = None"
    "nav_enumerateDevices nav = Inr devices"
  shows "getCameras nav =
     Resolved (map (\<lambda>d. \<lparr>camera_id = device_deviceId d, camera_label = device_label d\<rparr>)
                 (filter (\<lambda>d. device_kind d = ''videoinput'') devices))"
  using assms by (simp add: getCameras_def collectCameras_eq del: collectCameras.simps)

theorem getCameras_videoinput_witness:
  "getCameras exampleNavigator =
     Resolved [\<lparr>camera_id = ''v1'', camera_label = ''Front''\<rparr>,
               \<lparr>camera_id = ''v2'', camera_label = ''Back''\<rparr>]"
  using getCameras_videoinput [of exampleNavigator]
  by (simp add: exampleNavigator_def)

section \<open>Properties of the scan loop and of stopping\<close>

text \<open>What one iteration draws: the source rectangle starts at the region's own \<open>x\<close> and
  \<open>y\<close>; only its extent is multiplied by the ratios.\<close>

lemma scanFrame_drawImage:
  assumes "videoElement s = Some v" "qrRegion s = Some r" "context2d s = Some cx"
  shows "effects (snd (scanFrame m DecodeReturns s)) =
     effects s @
     [DrawImage \<lparr>sx = rect_x r, sy = rect_y r,
        sWidth = rect_width r * (video_videoWidth m / video_clientWidth m),
        sHeight = rect_height r * (video_videoHeight m / video_clientHeight m),
        dx = 0, dy = 0, dWidth = rect_width r, dHeight = rect_height r\<rparr>,
      Decode]"
  using assms by (simp add: scanFrame_def perform_def Let_def)

text \<open>
  C1. In \<open>exampleRun\<close> the viewfinder region is the square of side 250 at (25, 25) and
  both ratios are 600 / 300 = 2. The first iteration of \<open>foreverScan\<close> copies the source
  rectangle of extent 500 by 500 (the region's, times the ratios) to the whole 250 by
  250 canvas at (0, 0), but from the origin (25, 25): the region's own \<open>x\<close> and \<open>y\<close>,
  not multiplied by the ratios, which would give (50, 50).
\<close>

theorem foreverScan_origin_not_scaled:
  "qrRegion (run_scanner exampleRun) =
     Some \<lparr>rect_x = 25, rect_y = 25, rect_width = 250, rect_height = 250\<rparr>
   \<and> effects (run_scanner exampleRun) =
     [GetUserMedia ''camera-1'', Play,
      DrawImage \<lparr>sx = 25, sy = 25, sWidth = 500, sHeight = 500,
                 dx = 0, dy = 0, dWidth = 250, dHeight = 250\<rparr>,
      Decode, SetTimeout 1 100]
   \<and> 25 * (video_videoWidth exampleMetrics / video_clientWidth exampleMetrics) = 50
   \<and> 25 * (video_videoHeight exampleMetrics / video_clientHeight exampleMetrics) = 50"
  by code_simp

lemma foreverScan_stopped:
  "\<not> shouldScan s \<Longrightarrow> foreverScan c m dec s = (Returns (), s)"
  by (simp add: foreverScan_def)

lemma timerFires_stopped:
  "\<not> shouldScan s \<Longrightarrow>
   timerFires c t m dec s = (Returns (), s\<lparr>timers := removeAll t (timers s)\<rparr>)"
  by (simp add: timerFires_def foreverScan_def)

lemma timersFire_stopped:
  "\<not> shouldScan s \<Longrightarrow>
   \<not> shouldScan (timersFire c fs s)
   \<and> effects (timersFire c fs s) = effects s
   \<and> set (timers (timersFire c fs s)) \<subseteq> set (timers s)
   \<and> foreverScanTimeout (timersFire c fs s) = foreverScanTimeout s"
proof (induction fs arbitrary: s)
  case Nil
  then show ?case by simp
next
  case (Cons f fs)
  obtain t m dec where f: "f = (t, m, dec)" by (cases f)
  let ?s1 = "s\<lparr>timers := removeAll t (timers s)\<rparr>"
  have n: "\<not> shouldScan ?s1" using Cons.prems by simp
  from Cons.IH [OF n] show ?case
    using Cons.prems by (auto simp: f timerFires_stopped)
qed

lemma onAllTracksClosed_keeps:
  "shouldScan (snd (onAllTracksClosed s)) = shouldScan s"
  "timers (snd (onAllTracksClosed s)) = timers s"
  by (simp_all add: onAllTracksClosed_def removeChild_def Let_def
      split: option.splits completion.splits)

lemma stopTracks_keeps:
  "shouldScan (snd (stopTracks n k tot s)) = shouldScan s
   \<and> timers (snd (stopTracks n k tot s)) = timers s"
proof (induction n arbitrary: k s)
  case 0
  then show ?case by simp
next
  case (Suc n)
  show ?case
    using Suc.IH onAllTracksClosed_keeps [of "perform StopTrack s"]
    by (auto simp: Let_def perform_def split: prod.splits completion.splits)
qed

lemma stop_flag_and_timer:
  "\<not> shouldScan (snd (stop s))"
  "timers (snd (stop s)) =
     (case foreverScanTimeout s of None \<Rightarrow> timers s | Some t \<Rightarrow> removeAll t (timers s))"
  by (simp_all add: stop_def Let_def stopTracks_keeps clearTimeout_def perform_def
      split: option.splits)

text \<open>
  C7. \<open>stop\<close> leaves \<open>_shouldScan\<close> false and the timeout of \<open>_foreverScanTimeout\<close> no
  longer pending, whatever becomes of its Promise. From then on a call of
  \<open>foreverScan\<close> returns at once: it changes nothing, so it draws no frame, calls no
  decoder and sets no timeout; and however many timeouts still fire, the log of
  platform calls stays as \<open>stop\<close> left it and no timeout is added.
\<close>

theorem stop_cancels_scan_loop:
  "\<not> shouldScan (snd (stop s))
   \<and> set (timers (snd (stop s))) = set (timers s) - set_option (foreverScanTimeout s)
   \<and> foreverScan c m dec (snd (stop s)) = (Returns (), snd (stop s))
   \<and> effects (timersFire c fs (snd (stop s))) = effects (snd (stop s))
   \<and> \<not> shouldScan (timersFire c fs (snd (stop s)))
   \<and> set (timers (timersFire c fs (snd (stop s)))) \<subseteq> set (timers (snd (stop s)))"
proof -
  note n = stop_flag_and_timer(1) [of s]
  have t: "set (timers (snd (stop s))) = set (timers s) - set_option (foreverScanTimeout s)"
    by (simp add: stop_flag_and_timer(2) split: option.splits)
  from n t foreverScan_stopped [OF n, of c m dec] timersFire_stopped [OF n, of c fs]
  show ?thesis by simp
qed

theorem stop_cancels_scan_loop_witness:
  "shouldScan exampleScanning
   \<and> timers exampleScanning = [1]
   \<and> effects (snd (timerFires exampleClosure 1 exampleMetrics DecodeReturns exampleScanning))
       \<noteq> effects exampleScanning
   \<and> timers (snd (stop exampleScanning)) = []
   \<and> effects (timersFire exampleClosure [(1, exampleMetrics, DecodeReturns)]
                (snd (stop exampleScanning)))
       = effects (snd (stop exampleScanning))"
proof -
  have a: "shouldScan exampleScanning" "timers exampleScanning = [1]"
    "foreverScanTimeout exampleScanning = Some 1"
    "effects (snd (timerFires exampleClosure 1 exampleMetrics DecodeReturns exampleScanning))
       \<noteq> effects exampleScanning"
    by code_simp+
  from stop_cancels_scan_loop
    [of exampleScanning exampleClosure exampleMetrics DecodeReturns
        "[(1, exampleMetrics, DecodeReturns)]"]
  show ?thesis using a by simp
qed

section \<open>Properties of \<open>scanFile\<close>\<close>

text \<open>
  C5, as the claim states it, fails: with a camera scan ongoing and an \<open>imageFile\<close> that
  is not a \<open>File\<close>, \<open>scanFile\<close> throws the message about the \<open>imageFile\<close> argument, not
  "Close ongoing scan before scanning a file."; the argument is checked first.
\<close>

theorem scanFile_checks_file_first:
  "isScanning exampleScanning
   \<and> scanFile NoFile None exampleScanning = (Throws ImageFileMandatory, exampleScanning)"
proof -
  have "isScanning exampleScanning" by code_simp
  then show ?thesis by (simp add: scanFile_def)
qed

text \<open>
  C5, amended. In every state in which a camera scan is ongoing (\<open>_isScanning\<close> true),
  \<open>scanFile\<close> throws and leaves the state as it was: no image is loaded, nothing is
  cleared. The message is "Close ongoing scan before scanning a file." when
  \<open>imageFile\<close> is a \<open>File\<close>, and the message about the \<open>imageFile\<close> argument otherwise.
\<close>

theorem scanFile_refuses_while_scanning:
  assumes "isScanning s"
  shows "scanFile imageFile showImage s =
     (Throws (case imageFile of AFile f \<Rightarrow> CloseOngoingScan | _ \<Rightarrow> ImageFileMandatory), s)"
  using assms by (simp add: scanFile_def split: fileArg.splits)

theorem scanFile_refuses_while_scanning_witness:
  "isScanning exampleScanning
   \<and> scanFile (AFile 7) None exampleScanning = (Throws CloseOngoingScan, exampleScanning)"
proof -
  have a: "isScanning exampleScanning" by code_simp
  from scanFile_refuses_while_scanning [OF a, of "AFile 7" None] a
  show ?thesis by simp
qed

section \<open>Properties of \<open>start\<close>\<close>

lemma start_returns:
  assumes "start cameraId configuration cb api s0 = (Returns req, s1)"
  shows "closure_qrbox (request_closure req) =
           (case configuration of None \<Rightarrow> None | Some cfg \<Rightarrow> config_qrbox cfg)"
    and "closure_isShadedBoxEnabled (request_closure req)
           = (closure_qrbox (request_closure req) \<noteq> None)"
    and "\<not> isScanning s1" and "timers s1 = timers s0"
    and "request_promise req \<noteq> Resolved ()"
  using assms
  by (auto simp: start_def clearElement_def Let_def perform_def
      split: callbackArg.splits cameraApi.splits if_splits option.splits)

lemma example_start:
  "start ''camera-1'' (Some exampleConfig) (Function 0) MediaDevicesApi
     (newHtml5Qrcode True 300 300) = (Returns exampleRequest, exampleStarted)"
  by (simp add: exampleStarted_def exampleRequest_def exampleClosure_def exampleConfig_def
      start_def clearElement_def newHtml5Qrcode_def jsLess_def jsGreater_def Let_def
      MIN_QR_BOX_SIZE_def perform_def)

text \<open>
  C9. When \<open>config.qrbox\<close> is defined and is less than \<open>MIN_QR_BOX_SIZE\<close> (50) or
  greater than the container's width (\<open>clientWidth\<close>, or 300 when that is 0), \<open>start\<close>
  throws. It has then made no platform call, so it has not asked for the camera; the
  stream, \<open>_isScanning\<close>, the video element, the region and the pending timeouts are
  as before, and the container has no child it did not have.
\<close>

theorem start_validates_qrbox:
  assumes "config_qrbox cfg = Some q"
    and "q < MIN_QR_BOX_SIZE
         \<or> q > (if element_clientWidth s \<noteq> 0 then element_clientWidth s else DEFAULT_WIDTH)"
  shows "\<exists>e s1. start cameraId (Some cfg) qrCodeSuccessCallback api s = (Throws e, s1)
     \<and> effects s1 = effects s
     \<and> localMediaStream s1 = localMediaStream s
     \<and> isScanning s1 = isScanning s
     \<and> timers s1 = timers s
     \<and> videoElement s1 = videoElement s
     \<and> qrRegion s1 = qrRegion s
     \<and> set (element_children s1) \<subseteq> set (element_children s)"
  using assms
  by (auto simp: start_def clearElement_def jsLess_def jsGreater_def Let_def
      split: callbackArg.splits cameraApi.splits)

theorem start_validates_qrbox_witness:
  "fst (start ''camera-1'' (Some \<lparr>config_fps = None, config_qrbox = Some 40\<rparr>) (Function 0)
          MediaDevicesApi (newHtml5Qrcode True 300 300)) = Throws QrboxBelowMinimum
   \<and> fst (start ''camera-1'' (Some \<lparr>config_fps = None, config_qrbox = Some 301\<rparr>) (Function 0)
          MediaDevicesApi (newHtml5Qrcode True 300 300)) = Throws QrboxExceedsElementWidth
   \<and> effects (snd (start ''camera-1'' (Some \<lparr>config_fps = None, config_qrbox = Some 40\<rparr>)
          (Function 0) MediaDevicesApi (newHtml5Qrcode True 300 300))) = []"
proof -
  have q: "config_qrbox \<lparr>config_fps = None, config_qrbox = Some 40\<rparr> = Some 40"
    and m: "(40::rat) < MIN_QR_BOX_SIZE"
    by (simp_all add: MIN_QR_BOX_SIZE_def)
  from start_validates_qrbox [OF q disjI1 [OF m], of "''camera-1''" "Function 0"
      MediaDevicesApi "newHtml5Qrcode True 300 300"]
  obtain e s1 where
    s: "start ''camera-1'' (Some \<lparr>config_fps = None, config_qrbox = Some 40\<rparr>) (Function 0)
          MediaDevicesApi (newHtml5Qrcode True 300 300) = (Throws e, s1)"
    and f: "effects s1 = effects (newHtml5Qrcode True 300 300)"
    by blast
  have e1: "fst (start ''camera-1'' (Some \<lparr>config_fps = None, config_qrbox = Some 40\<rparr>)
          (Function 0) MediaDevicesApi (newHtml5Qrcode True 300 300)) = Throws QrboxBelowMinimum"
    and e2: "fst (start ''camera-1'' (Some \<lparr>config_fps = None, config_qrbox = Some 301\<rparr>)
          (Function 0) MediaDevicesApi (newHtml5Qrcode True 300 300))
          = Throws QrboxExceedsElementWidth"
    by code_simp+
  from s f e1 e2 show ?thesis by (simp add: newHtml5Qrcode_def)
qed

text \<open>
  C10. When \<open>start\<close> has accepted a defined \<open>config.qrbox\<close> and the rendered video is
  less high than it, \<open>setupUi\<close> does not fail: it warns, inserts the canvas and no
  shading element, and takes as the scanned region the whole rendered video, at (0, 0)
  with the video's rendered width and height.
\<close>

theorem setupUi_falls_back:
  assumes "start cameraId (Some cfg) cb api s0 = (Returns req, s1)"
    and "config_qrbox cfg = Some q" and "height < q"
  shows "setupUi (request_closure req) width height s =
     (Returns (),
      s\<lparr>effects := effects s @ [ConsoleWarn],
        element_children := element_children s @
          [CanvasNode ((createCanvasElement width height None)
                         \<lparr>canvas_width := width, canvas_height := height\<rparr>)],
        qrRegion := Some \<lparr>rect_x = 0, rect_y = 0, rect_width = width, rect_height = height\<rparr>,
        context2d := Some ((createCanvasElement width height None)
                         \<lparr>canvas_width := width, canvas_height := height\<rparr>),
        canvasElement := Some ((createCanvasElement width height None)
                         \<lparr>canvas_width := width, canvas_height := height\<rparr>)\<rparr>)"
proof -
  from start_returns(1) [OF assms(1)] assms(2)
  have q: "closure_qrbox (request_closure req) = Some q" by simp
  show ?thesis
    using assms(3) by (simp add: setupUi_def q jsGreater_def jsLessEq_def perform_def Let_def)
qed

theorem setupUi_falls_back_witness:
  "fst (setupUi exampleClosure 300 200 exampleStarted) = Returns ()
   \<and> qrRegion (snd (setupUi exampleClosure 300 200 exampleStarted)) =
       Some \<lparr>rect_x = 0, rect_y = 0, rect_width = 300, rect_height = 200\<rparr>
   \<and> element_children (snd (setupUi exampleClosure 300 200 exampleStarted)) =
       [CanvasNode \<lparr>canvas_id = ''qr-canvas'', canvas_style_width = 300,
          canvas_style_height = 200, canvas_display = ''none'',
          canvas_width = 300, canvas_height = 200\<rparr>]"
proof -
  have q: "config_qrbox exampleConfig = Some 250" and h: "(200::rat) < 250"
    by (simp_all add: exampleConfig_def)
  have c: "element_children exampleStarted = []" by code_simp
  from setupUi_falls_back [OF example_start q h, of 300 exampleStarted] c
  show ?thesis by (simp add: exampleRequest_def createCanvasElement_def)
qed

section \<open>Properties of a run of \<open>start\<close>\<close>


lemma newEffects_self [simp]: "newEffects s s = []"
  by (simp add: newEffects_def)
























lemma scanLoopStarted_isScanning [simp]:
  "scanLoopStarted s1 (s\<lparr>isScanning := b\<rparr>) = scanLoopStarted s1 s"
  by (simp add: scanLoopStarted_def newEffects_def timeoutPending_def split: option.splits)

lemma geometrySet_isScanning [simp]:
  "geometrySet (s\<lparr>isScanning := b\<rparr>) = geometrySet s"
  by (simp add: geometrySet_def split: option.splits)

lemma newEffects_isScanning [simp]:
  "newEffects s1 (s\<lparr>isScanning := b\<rparr>) = newEffects s1 s"
  by (simp add: newEffects_def)














end
